theory Spec2Isabelle
  imports Complex_Main "HOL-Library.AList"
begin

section \<open>Pieces, teams and positions\<close>

text \<open>
  The six piece names and the two team names that the sources switch on. A
  position is the pair \<open>(x, z)\<close> of the object \<open>{x, z}\<close>; coordinates are integers.
\<close>

datatype team = White | Black

datatype piece_type = Pawn | Rook | Knight | Bishop | Queen | King

type_synonym pos = "int \<times> int"

section \<open>ChessRules: the move generator\<close>

text \<open>
  \<open>boardState\<close> is an array of rows indexed by \<open>z\<close>, each row an array of cells
  indexed by \<open>x\<close>; a cell is \<open>null\<close> or \<open>{id, type, team}\<close>.
\<close>

record cell =
  cid :: string
  ctype :: piece_type
  cteam :: team

type_synonym board = "cell option list list"

definition isValidPosition :: "pos \<Rightarrow> bool" where
  "isValidPosition position =
     (fst position \<ge> 0 \<and> fst position < 8 \<and> snd position \<ge> 0 \<and> snd position < 8)"

text \<open>
  \<open>getPieceAt\<close> first calls \<open>ensureBoardInitialized\<close>, which replaces every missing
  row and every missing cell by \<open>null\<close>, and then reads \<open>boardState[z][x]\<close>. A
  missing row or cell therefore reads as \<open>None\<close>.
\<close>

definition getPieceAt :: "board \<Rightarrow> pos \<Rightarrow> cell option" where
  "getPieceAt boardState position =
     (if \<not> isValidPosition position then None
      else if nat (snd position) < length boardState then
        (let row = boardState ! nat (snd position)
         in if nat (fst position) < length row then row ! nat (fst position) else None)
      else None)"

definition isPositionOccupied :: "board \<Rightarrow> pos \<Rightarrow> bool" where
  "isPositionOccupied boardState position =
     (if \<not> isValidPosition position then False
      else getPieceAt boardState position \<noteq> None)"

definition isOpponentPiece :: "board \<Rightarrow> pos \<Rightarrow> team \<Rightarrow> bool" where
  "isOpponentPiece boardState position tm =
     (case getPieceAt boardState position of
        None \<Rightarrow> False
      | Some piece \<Rightarrow> cteam piece \<noteq> tm)"

definition getPawnMoves :: "board \<Rightarrow> pos \<Rightarrow> team \<Rightarrow> pos list" where
  "getPawnMoves boardState position tm =
     (let direction = (if tm = White then - 1 else 1);
          isStartingRow = (if tm = White then snd position = 6 else snd position = 1);
          forward = (fst position, snd position + direction);
          doubleForward = (fst position, snd position + 2 * direction);
          forwardMoves =
            (if isValidPosition forward \<and> \<not> isPositionOccupied boardState forward
             then forward #
               (if isStartingRow
                then (if isValidPosition doubleForward
                         \<and> \<not> isPositionOccupied boardState doubleForward
                      then [doubleForward] else [])
                else [])
             else []);
          captureMoves = [(fst position - 1, snd position + direction),
                          (fst position + 1, snd position + direction)]
      in forwardMoves @
         filter (\<lambda>move. isValidPosition move \<and> isOpponentPiece boardState move tm)
           captureMoves)"

text \<open>The square \<open>{x: position.x + dir.x * i, z: position.z + dir.z * i}\<close>.\<close>

definition rayStep :: "pos \<Rightarrow> pos \<Rightarrow> int \<Rightarrow> pos" where
  "rayStep position dir i = (fst position + fst dir * i, snd position + snd dir * i)"

text \<open>
  The inner loop \<open>for (let i = 1; i < 8; i++)\<close> of \<open>getRookMoves\<close> and
  \<open>getBishopMoves\<close>, started at \<open>i\<close>: it breaks at the first off-board square and
  at the first occupied square, which it pushes only when an opponent stands there.
\<close>

function rayLoop :: "board \<Rightarrow> team \<Rightarrow> pos \<Rightarrow> pos \<Rightarrow> int \<Rightarrow> pos list" where
  "rayLoop boardState tm position dir i =
     (if i < 8 then
        (let move = rayStep position dir i
         in if \<not> isValidPosition move then []
            else if \<not> isPositionOccupied boardState move
              then move # rayLoop boardState tm position dir (i + 1)
            else (if isOpponentPiece boardState move tm then [move] else []))
      else [])"
  by pat_completeness auto
termination
  by (relation "measure (\<lambda>(boardState, tm, position, dir, i). nat (8 - i))") auto

declare rayLoop.simps [simp del]

definition rookDirections :: "pos list" where
  "rookDirections = [(0, 1), (0, - 1), (1, 0), (- 1, 0)]"

definition bishopDirections :: "pos list" where
  "bishopDirections = [(1, 1), (1, - 1), (- 1, 1), (- 1, - 1)]"

definition getRookMoves :: "board \<Rightarrow> pos \<Rightarrow> team \<Rightarrow> pos list" where
  "getRookMoves boardState position tm =
     concat (map (\<lambda>dir. rayLoop boardState tm position dir 1) rookDirections)"

definition getBishopMoves :: "board \<Rightarrow> pos \<Rightarrow> team \<Rightarrow> pos list" where
  "getBishopMoves boardState position tm =
     concat (map (\<lambda>dir. rayLoop boardState tm position dir 1) bishopDirections)"

definition getQueenMoves :: "board \<Rightarrow> pos \<Rightarrow> team \<Rightarrow> pos list" where
  "getQueenMoves boardState position tm =
     getRookMoves boardState position tm @ getBishopMoves boardState position tm"

definition knightMoves :: "pos list" where
  "knightMoves = [(1, 2), (2, 1), (2, - 1), (1, - 2), (- 1, - 2), (- 2, - 1), (- 2, 1), (- 1, 2)]"

definition getKnightMoves :: "board \<Rightarrow> pos \<Rightarrow> team \<Rightarrow> pos list" where
  "getKnightMoves boardState position tm =
     filter (\<lambda>newPos. isValidPosition newPos
                \<and> (\<not> isPositionOccupied boardState newPos
                     \<or> isOpponentPiece boardState newPos tm))
       (map (\<lambda>move. (fst position + fst move, snd position + snd move)) knightMoves)"

definition kingDirections :: "pos list" where
  "kingDirections = [(0, 1), (1, 1), (1, 0), (1, - 1), (0, - 1), (- 1, - 1), (- 1, 0), (- 1, 1)]"

definition getKingMoves :: "board \<Rightarrow> pos \<Rightarrow> team \<Rightarrow> pos list" where
  "getKingMoves boardState position tm =
     filter (\<lambda>move. isValidPosition move
                \<and> (\<not> isPositionOccupied boardState move
                     \<or> isOpponentPiece boardState move tm))
       (map (\<lambda>dir. (fst position + fst dir, snd position + snd dir)) kingDirections)"

definition getValidMoves :: "board \<Rightarrow> pos \<Rightarrow> pos list" where
  "getValidMoves boardState position =
     (if \<not> isValidPosition position then []
      else case getPieceAt boardState position of
        None \<Rightarrow> []
      | Some piece \<Rightarrow>
          (case ctype piece of
             Pawn \<Rightarrow> getPawnMoves boardState position (cteam piece)
           | Rook \<Rightarrow> getRookMoves boardState position (cteam piece)
           | Knight \<Rightarrow> getKnightMoves boardState position (cteam piece)
           | Bishop \<Rightarrow> getBishopMoves boardState position (cteam piece)
           | Queen \<Rightarrow> getQueenMoves boardState position (cteam piece)
           | King \<Rightarrow> getKingMoves boardState position (cteam piece)))"


section \<open>The server: registry, move validation, abilities, defeat and respawn\<close>

text \<open>
  An entry of the \<open>players\<close> map. \<open>isSpectator\<close> and \<open>respawnTime\<close> are absent
  until \<open>handlePlayerDefeat\<close> sets them. Times are \<open>Date.now()\<close> in milliseconds.
\<close>

record player =
  pid :: string
  ptype :: piece_type
  team :: team
  position :: pos
  hp :: int
  effects :: "string list"
  lastMoveTime :: int
  respawning :: bool
  playerRespawnTime :: "int option"
  isSpectator :: bool

record settings =
  respawnEnabled :: bool
  respawnTime :: int
  maxPlayers :: nat
  friendlyFire :: bool

definition gameSettings :: settings where
  "gameSettings =
     \<lparr>respawnEnabled = True, respawnTime = 5, maxPlayers = 32, friendlyFire = False\<rparr>"

datatype event =
    AbilityEvent int string string int
  | DefeatEvent int string string

datatype message =
    GameState "(string \<times> player) list" "event list" settings real
  | Update "(string \<times> player) list"
  | MoveRejected string pos
  | PlayerRespawn string pos int

text \<open>
  The module state. \<open>players\<close> is a \<open>Map\<close>, which iterates in insertion order and
  keeps a key's place when its value is replaced: an association list under
  \<^const>\<open>AList.update\<close> and \<^const>\<open>AList.delete\<close>. \<open>timers\<close> holds the pending
  \<open>setTimeout\<close> callbacks of \<open>handlePlayerDefeat\<close> as the due time and the
  \<open>defeatedPlayer.id\<close> each closure captured; all have the same delay, so they fire
  first in, first out. \<open>outbox\<close> collects what the handlers emit, to the sender or
  to everyone. \<open>assignedPositions\<close> is included for the slot that a disconnect
  releases.
\<close>

record server =
  players :: "(string \<times> player) list"
  eventLog :: "event list"
  gameStartTime :: int
  assignedPositions :: "((team \<times> piece_type) \<times> bool list) list"
  timers :: "(int \<times> string) list"
  outbox :: "message list"

fun traditionalPositions :: "team \<Rightarrow> piece_type \<Rightarrow> pos list" where
  "traditionalPositions White Pawn =
     [(0, 6), (1, 6), (2, 6), (3, 6), (4, 6), (5, 6), (6, 6), (7, 6)]"
| "traditionalPositions White Rook = [(0, 7), (7, 7)]"
| "traditionalPositions White Knight = [(1, 7), (6, 7)]"
| "traditionalPositions White Bishop = [(2, 7), (5, 7)]"
| "traditionalPositions White Queen = [(3, 7)]"
| "traditionalPositions White King = [(4, 7)]"
| "traditionalPositions Black Pawn =
     [(0, 1), (1, 1), (2, 1), (3, 1), (4, 1), (5, 1), (6, 1), (7, 1)]"
| "traditionalPositions Black Rook = [(0, 0), (7, 0)]"
| "traditionalPositions Black Knight = [(1, 0), (6, 0)]"
| "traditionalPositions Black Bishop = [(2, 0), (5, 0)]"
| "traditionalPositions Black Queen = [(3, 0)]"
| "traditionalPositions Black King = [(4, 0)]"

text \<open>\<open>findIndex\<close>: the first index whose element satisfies the test, if any.\<close>

fun findIndex :: "('a \<Rightarrow> bool) \<Rightarrow> 'a list \<Rightarrow> nat option" where
  "findIndex P [] = None"
| "findIndex P (a # as) =
     (if P a then Some 0 else map_option Suc (findIndex P as))"

definition releaseAssignedPosition :: "team \<Rightarrow> piece_type \<Rightarrow> pos \<Rightarrow> server \<Rightarrow> server" where
  "releaseAssignedPosition tm pieceType pos0 st =
     (case map_of (assignedPositions st) (tm, pieceType) of
        None \<Rightarrow> st
      | Some flags \<Rightarrow>
          (case findIndex (\<lambda>q. fst q = fst pos0 \<and> snd q = snd pos0)
                  (traditionalPositions tm pieceType) of
             None \<Rightarrow> st
           | Some positionIndex \<Rightarrow>
               st\<lparr>assignedPositions :=
                    AList.update (tm, pieceType) (flags[positionIndex := False])
                      (assignedPositions st)\<rparr>))"

definition getBaseHp :: "piece_type \<Rightarrow> int" where
  "getBaseHp ty =
     (case ty of Pawn \<Rightarrow> 5 | Rook \<Rightarrow> 7 | Knight \<Rightarrow> 7 | Bishop \<Rightarrow> 7 | Queen \<Rightarrow> 10 | King \<Rightarrow> 15)"

text \<open>
  \<open>v || d\<close> on a numeric field that may be absent: \<open>undefined\<close> and \<open>0\<close> are falsy,
  every other integer is kept.
\<close>

definition orDefault :: "int option \<Rightarrow> int \<Rightarrow> int" where
  "orDefault v d = (case v of None \<Rightarrow> d | Some n \<Rightarrow> if n = 0 then d else n)"

text \<open>
  Health and damage are JavaScript numbers, IEEE doubles, read here on integers.
  The doubles of magnitude up to \<open>2 ^ 53\<close> are all the integers; from there on they
  lie \<open>spacing a\<close> apart, where \<open>a\<close> is the magnitude. \<open>toDouble n\<close> is the double
  nearest to the integer \<open>n\<close>, the one with the even significand when two are
  equally near, and \<open>jsMinus a b\<close> is what \<open>a - b\<close> evaluates to on two numbers
  \<open>a\<close> and \<open>b\<close>: the exact difference, rounded to a double. Numbers with a
  fractional part, and differences of magnitude \<open>2 ^ 1024\<close> or more, which
  evaluate to an infinity of the same sign, are outside this reading.
\<close>

function spacing :: "nat \<Rightarrow> nat" where
  "spacing a = (if a < 2 ^ 53 then 1 else 2 * spacing (a div 2))"
  by pat_completeness auto
termination
  by (relation "measure (\<lambda>a. a)") auto

declare spacing.simps [simp del]

definition toDouble :: "int \<Rightarrow> int" where
  "toDouble n =
     (let a = nat \<bar>n\<bar>;
          s = spacing a;
          q = a div s;
          r = a mod s;
          m = (if 2 * r > s \<or> (2 * r = s \<and> odd q) then (q + 1) * s else q * s)
      in sgn n * int m)"

definition jsMinus :: "int \<Rightarrow> int \<Rightarrow> int" where
  "jsMinus a b = toDouble (a - b)"

record confirm_data =
  cd_id :: string
  cd_type :: piece_type
  cd_team :: team
  cd_position :: pos
  cd_hp :: "int option"

definition confirmPieceAssignment :: "int \<Rightarrow> confirm_data \<Rightarrow> server \<Rightarrow> server" where
  "confirmPieceAssignment now data st =
     (let players' =
            AList.update (cd_id data)
              \<lparr>pid = cd_id data, ptype = cd_type data, team = cd_team data,
               position = cd_position data,
               hp = orDefault (cd_hp data) (getBaseHp (cd_type data)),
               effects = [], lastMoveTime = now, respawning = False,
               playerRespawnTime = None, isSpectator = False\<rparr>
              (players st)
      in st\<lparr>players := players',
            outbox := outbox st @
              [GameState players' (drop (length (eventLog st) - 10) (eventLog st)) gameSettings
                 (real_of_int (now - gameStartTime st) / 1000),
               Update players']\<rparr>)"

definition isAnyPieceAt :: "(string \<times> player) list \<Rightarrow> pos \<Rightarrow> bool" where
  "isAnyPieceAt ps pos0 =
     list_ex (\<lambda>(k, p). fst (position p) = fst pos0 \<and> snd (position p) = snd pos0) ps"

definition server_isPositionOccupied :: "(string \<times> player) list \<Rightarrow> pos \<Rightarrow> team \<Rightarrow> bool" where
  "server_isPositionOccupied ps pos0 tm =
     list_ex (\<lambda>(k, p). fst (position p) = fst pos0 \<and> snd (position p) = snd pos0
                \<and> team p \<noteq> tm) ps"

text \<open>
  The \<open>while\<close> loop of \<open>isPathBlocked\<close>. It runs until the walk reaches \<open>end\<close> or
  meets a piece, so it need not return for every pair of squares: \<open>None\<close> is the
  loop that never ends.
\<close>

partial_function (option) isPathBlocked_loop ::
  "(string \<times> player) list \<Rightarrow> int \<Rightarrow> int \<Rightarrow> pos \<Rightarrow> int \<Rightarrow> int \<Rightarrow> bool option" where
  "isPathBlocked_loop ps dirX dirZ end0 currX currZ =
     (if currX \<noteq> fst end0 \<or> currZ \<noteq> snd end0 then
        (if isAnyPieceAt ps (currX, currZ) then Some True
         else isPathBlocked_loop ps dirX dirZ end0 (currX + dirX) (currZ + dirZ))
      else Some False)"

definition isPathBlocked :: "(string \<times> player) list \<Rightarrow> pos \<Rightarrow> pos \<Rightarrow> bool option" where
  "isPathBlocked ps start end0 =
     (let dirX = (if fst end0 > fst start then 1 else if fst end0 < fst start then - 1 else 0);
          dirZ = (if snd end0 > snd start then 1 else if snd end0 < snd start then - 1 else 0)
      in isPathBlocked_loop ps dirX dirZ end0 (fst start + dirX) (snd start + dirZ))"

text \<open>
  \<open>validateMove\<close>. A request whose position is missing or not a pair of numbers
  is \<open>None\<close> on input. \<open>a && !isPathBlocked(..)\<close> calls \<open>isPathBlocked\<close> only when
  \<open>a\<close> holds. The result \<open>None\<close> is a call that does not return.
\<close>

definition validateMove ::
  "(string \<times> player) list \<Rightarrow> player \<Rightarrow> pos option \<Rightarrow> bool option" where
  "validateMove ps p req =
     (case req of
        None \<Rightarrow> Some False
      | Some newPosition \<Rightarrow>
          if fst newPosition < 0 \<or> fst newPosition \<ge> 8
             \<or> snd newPosition < 0 \<or> snd newPosition \<ge> 8 then Some False
          else
            (let distX = \<bar>fst newPosition - fst (position p)\<bar>;
                 distZ = \<bar>snd newPosition - snd (position p)\<bar>;
                 zChange = snd newPosition - snd (position p)
             in case ptype p of
                  Pawn \<Rightarrow>
                    (let forwardDirection = (if team p = White then - 1 else 1);
                         isStartingPosition =
                           ((team p = White \<and> snd (position p) = 6)
                            \<or> (team p = Black \<and> snd (position p) = 1))
                     in if distX = 0 then
                          (if sgn zChange = forwardDirection then
                             (if \<bar>zChange\<bar> = 1 then Some True
                              else if isStartingPosition \<and> \<bar>zChange\<bar> = 2 then Some True
                              else Some False)
                           else Some False)
                        else if distX = 1 \<and> distZ = 1 then
                          (if sgn zChange = forwardDirection
                           then Some (server_isPositionOccupied ps newPosition (team p))
                           else Some False)
                        else Some False)
                | Rook \<Rightarrow>
                    (if distX = 0 \<or> distZ = 0
                     then map_option Not (isPathBlocked ps (position p) newPosition)
                     else Some False)
                | Knight \<Rightarrow> Some ((distX = 2 \<and> distZ = 1) \<or> (distX = 1 \<and> distZ = 2))
                | Bishop \<Rightarrow>
                    (if distX = distZ
                     then map_option Not (isPathBlocked ps (position p) newPosition)
                     else Some False)
                | Queen \<Rightarrow>
                    (if (distX = 0 \<or> distZ = 0) \<or> distX = distZ
                     then map_option Not (isPathBlocked ps (position p) newPosition)
                     else Some False)
                | King \<Rightarrow> Some (distX \<le> 1 \<and> distZ \<le> 1)))"

definition moveHandler :: "int \<Rightarrow> string \<Rightarrow> pos option \<Rightarrow> server \<Rightarrow> server option" where
  "moveHandler now ident req st =
     (case map_of (players st) ident of
        None \<Rightarrow> Some st
      | Some p \<Rightarrow>
          (case validateMove (players st) p req of
             None \<Rightarrow> None
           | Some isValidMove \<Rightarrow>
               if isValidMove then
                 (let newPosition = (case req of Some q \<Rightarrow> q | None \<Rightarrow> position p);
                      players' =
                        AList.update ident (p\<lparr>position := newPosition, lastMoveTime := now\<rparr>)
                          (players st)
                  in Some (st\<lparr>players := players', outbox := outbox st @ [Update players']\<rparr>))
               else Some (st\<lparr>outbox := outbox st @ [MoveRejected ident (position p)]\<rparr>)))"

definition findTargetsAtPosition ::
  "settings \<Rightarrow> (string \<times> player) list \<Rightarrow> pos \<Rightarrow> team \<Rightarrow> string list" where
  "findTargetsAtPosition gs ps pos0 attackerTeam =
     map fst
       (filter (\<lambda>(k, p). fst (position p) = fst pos0 \<and> snd (position p) = snd pos0
                  \<and> \<not> (\<not> friendlyFire gs \<and> team p = attackerTeam)) ps)"

text \<open>
  \<open>handlePlayerDefeat(defeatedPlayer, attacker)\<close>: \<open>k\<close> is the key under which the
  object \<open>defeatedPlayer\<close> is stored, so that the writes to its fields land in the map.
\<close>

definition handlePlayerDefeat ::
  "settings \<Rightarrow> int \<Rightarrow> string \<Rightarrow> player \<Rightarrow> player \<Rightarrow> server \<Rightarrow> server" where
  "handlePlayerDefeat gs now k defeatedPlayer attacker st =
     (let st1 = st\<lparr>eventLog := eventLog st @
                  [DefeatEvent (now - gameStartTime st) (pid defeatedPlayer) (pid attacker)]\<rparr>
      in if respawnEnabled gs then
           st1\<lparr>players :=
                 AList.update k
                   (defeatedPlayer\<lparr>respawning := True,
                      playerRespawnTime := Some (now + respawnTime gs * 1000)\<rparr>)
                   (players st1),
               timers := timers st1 @ [(now + respawnTime gs * 1000, pid defeatedPlayer)]\<rparr>
         else
           st1\<lparr>players :=
                 AList.update k (defeatedPlayer\<lparr>hp := 0, isSpectator := True\<rparr>) (players st1)\<rparr>)"

record ability_data =
  ad_id :: string
  ad_target :: pos
  ad_damage :: "int option"

text \<open>The body of \<open>targets.forEach(target => ...)\<close> in the \<open>ability\<close> handler.\<close>

definition hitTarget ::
  "settings \<Rightarrow> int \<Rightarrow> player \<Rightarrow> ability_data \<Rightarrow> server \<Rightarrow> string \<Rightarrow> server" where
  "hitTarget gs now attacker data st target =
     (case map_of (players st) target of
        None \<Rightarrow> st
      | Some targetPlayer \<Rightarrow>
          if \<not> friendlyFire gs \<and> team targetPlayer = team attacker then st
          else
            (let damaged =
                   targetPlayer\<lparr>hp := jsMinus (hp targetPlayer) (orDefault (ad_damage data) 1)\<rparr>;
                 st1 = st\<lparr>players := AList.update target damaged (players st),
                          eventLog := eventLog st @
                            [AbilityEvent (now - gameStartTime st) (pid attacker) target
                               (orDefault (ad_damage data) 1)]\<rparr>
             in if hp damaged \<le> 0
                then handlePlayerDefeat gs now target damaged attacker st1
                else st1))"

definition abilityHandler :: "settings \<Rightarrow> int \<Rightarrow> ability_data \<Rightarrow> server \<Rightarrow> server" where
  "abilityHandler gs now data st =
     (case map_of (players st) (ad_id data) of
        None \<Rightarrow> st
      | Some attacker \<Rightarrow>
          (let targets = findTargetsAtPosition gs (players st) (ad_target data) (team attacker);
               st' = foldl (hitTarget gs now attacker data) st targets
           in st'\<lparr>outbox := outbox st' @ [Update (players st')]\<rparr>))"

definition disconnectHandler :: "string \<Rightarrow> server \<Rightarrow> server" where
  "disconnectHandler socketId st =
     (let found = map_of (players st) socketId;
          st1 = st\<lparr>players := AList.delete socketId (players st)\<rparr>;
          st2 = (case found of
                   None \<Rightarrow> st1
                 | Some p \<Rightarrow> releaseAssignedPosition (team p) (ptype p) (position p) st1)
      in st2\<lparr>outbox := outbox st2 @ [Update (players st2)]\<rparr>)"

text \<open>
  The callback that \<open>handlePlayerDefeat\<close> hands to \<open>setTimeout\<close>; \<open>defeatedId\<close> is
  the captured \<open>defeatedPlayer.id\<close> and \<open>randomPosition\<close> what \<open>getRandomPosition()\<close>
  returns when the callback runs.
\<close>

definition respawnCallback :: "pos \<Rightarrow> string \<Rightarrow> server \<Rightarrow> server" where
  "respawnCallback randomPosition defeatedId st =
     (case map_of (players st) defeatedId of
        None \<Rightarrow> st
      | Some p \<Rightarrow>
          (let p' = p\<lparr>hp := getBaseHp (ptype p), position := randomPosition,
                      respawning := False\<rparr>;
               players' = AList.update defeatedId p' (players st)
           in st\<lparr>players := players',
                 outbox := outbox st @
                   [PlayerRespawn (pid p') (position p') (hp p'), Update players']\<rparr>))"

text \<open>The oldest pending timer fires: it leaves the timer queue and its callback runs.\<close>

definition fireRespawnTimer :: "pos \<Rightarrow> server \<Rightarrow> server" where
  "fireRespawnTimer randomPosition st =
     (case timers st of
        [] \<Rightarrow> st
      | (due, defeatedId) # rest \<Rightarrow> respawnCallback randomPosition defeatedId (st\<lparr>timers := rest\<rparr>))"

text \<open>
  The server handles one message or timer at a time. \<open>serverStep\<close> is one such
  step with the configured \<open>gameSettings\<close>, \<open>serverRun\<close> a sequence of them, each
  with the clock value at which it runs.
\<close>

datatype intent =
    ConfirmPieceAssignment confirm_data
  | Move string "pos option"
  | Ability ability_data
  | Disconnect string
  | RespawnTimer pos

fun serverStep :: "int \<Rightarrow> intent \<Rightarrow> server \<Rightarrow> server option" where
  "serverStep now (ConfirmPieceAssignment data) st = Some (confirmPieceAssignment now data st)"
| "serverStep now (Move ident req) st = moveHandler now ident req st"
| "serverStep now (Ability data) st = Some (abilityHandler gameSettings now data st)"
| "serverStep now (Disconnect socketId) st = Some (disconnectHandler socketId st)"
| "serverStep now (RespawnTimer randomPosition) st = Some (fireRespawnTimer randomPosition st)"

fun serverRun :: "(int \<times> intent) list \<Rightarrow> server \<Rightarrow> server option" where
  "serverRun [] st = Some st"
| "serverRun ((now, i) # rest) st =
     (case serverStep now i st of None \<Rightarrow> None | Some st' \<Rightarrow> serverRun rest st')"

definition initialServer :: "int \<Rightarrow> server" where
  "initialServer start =
     \<lparr>players = [], eventLog = [], gameStartTime = start, assignedPositions = [],
      timers = [], outbox = []\<rparr>"


section \<open>ChessPiece: abilities and cooldown\<close>

text \<open>
  The fields of a \<open>ChessPiece\<close> that its ability code reads and writes; the mesh
  and the visual effects are left to the renderer. \<open>cooldown\<close> is in seconds.
\<close>

record ability =
  ab_name :: string
  ab_damage :: int
  ab_cooldown :: real
  ab_healing :: "int option"

record chess_piece =
  cp_id :: string
  cp_type :: piece_type
  cp_team :: team
  cp_hp :: int
  cooldown :: real

definition getAbilityDetails :: "chess_piece \<Rightarrow> ability" where
  "getAbilityDetails piece =
     (case cp_type piece of
        Pawn \<Rightarrow> \<lparr>ab_name = ''Hop Attack'', ab_damage = 2, ab_cooldown = 5, ab_healing = None\<rparr>
      | Rook \<Rightarrow> \<lparr>ab_name = ''Rock Smash'', ab_damage = 3, ab_cooldown = 10, ab_healing = None\<rparr>
      | Knight \<Rightarrow> \<lparr>ab_name = ''Tail Whip'', ab_damage = 1, ab_cooldown = 8, ab_healing = None\<rparr>
      | Bishop \<Rightarrow> \<lparr>ab_name = ''Leaf Gust'', ab_damage = 2, ab_cooldown = 7, ab_healing = None\<rparr>
      | Queen \<Rightarrow> \<lparr>ab_name = ''Petal Storm'', ab_damage = 3, ab_cooldown = 12, ab_healing = None\<rparr>
      | King \<Rightarrow> \<lparr>ab_name = ''Royal Aura'', ab_damage = 0, ab_cooldown = 15, ab_healing = Some 1\<rparr>)"

definition getAbilityDamage :: "chess_piece \<Rightarrow> int" where
  "getAbilityDamage piece = ab_damage (getAbilityDetails piece)"

text \<open>
  \<open>useAbility\<close> of \<open>client/js/pieces.js\<close>: the piece after the call and the value
  returned (\<open>None\<close> for the bare \<open>return\<close> taken while the ability is on cooldown).
\<close>

definition useAbility :: "chess_piece \<Rightarrow> pos \<Rightarrow> chess_piece \<times> ability option" where
  "useAbility piece targetPos =
     (if cooldown piece > 0 then (piece, None)
      else (let ab = getAbilityDetails piece
            in (piece\<lparr>cooldown := ab_cooldown ab\<rparr>, Some ab)))"

text \<open>
  The earlier copy of \<open>useAbility\<close>, which also sends the \<open>ability\<close> message itself,
  after the cooldown check: the piece, the messages sent, and the value returned.
\<close>

definition useAbility_emitting ::
  "chess_piece \<Rightarrow> pos \<Rightarrow> chess_piece \<times> ability_data list \<times> ability option" where
  "useAbility_emitting piece targetPos =
     (if cooldown piece > 0 then (piece, [], None)
      else (let ab = getAbilityDetails piece
            in (piece\<lparr>cooldown := ab_cooldown ab\<rparr>,
                [\<lparr>ad_id = cp_id piece, ad_target = targetPos, ad_damage = Some (ab_damage ab)\<rparr>],
                Some ab)))"

text \<open>The cooldown part of \<open>animate(delta, time)\<close>.\<close>

definition animate :: "real \<Rightarrow> chess_piece \<Rightarrow> chess_piece" where
  "animate delta piece = piece\<lparr>cooldown := max 0 (cooldown piece - delta)\<rparr>"

text \<open>
  The space-bar branch of the client's \<open>keydown\<close> handler: it calls
  \<open>player.useAbility\<close>, drops what that returns, and sends the \<open>ability\<close> message
  with \<open>player.getAbilityDamage()\<close>. \<open>target\<close> is the board square the handler
  computes from the mesh position.
\<close>

definition keydownSpace :: "chess_piece \<Rightarrow> pos \<Rightarrow> chess_piece \<times> ability_data" where
  "keydownSpace piece target =
     (let piece' = fst (useAbility piece target)
      in (piece',
          \<lparr>ad_id = cp_id piece', ad_target = target,
           ad_damage = Some (getAbilityDamage piece')\<rparr>))"

section \<open>Game: loot and the neutral entity\<close>

datatype loot_type = DoubleMove | PetalShield | VineTrap

record loot =
  loot_id :: string
  loot_kind :: loot_type
  loot_position :: pos
  duration :: int
  isEventLoot :: bool

text \<open>
  An entry of \<open>Game.players\<close>: the fields that loot collection and the neutral
  entity's collision read and write. The three flags are absent until
  \<open>collectLoot\<close> sets them.
\<close>

record game_player =
  gp_id :: string
  gp_position :: "pos option"
  gp_hp :: int
  hasDoubleMove :: bool
  hasShield :: bool
  shieldDuration :: "int option"
  hasVineTrap :: bool

record entity =
  ent_id :: string
  ent_position :: pos
  ent_hp :: int
  isNeutral :: bool
  ent_lastMoveTime :: real

datatype game_message =
    PlayerDamage string int int
  | LootCollect string string loot_type

record game =
  gplayers :: "(string \<times> game_player) list"
  lootItems :: "(string \<times> loot) list"
  entities :: "(string \<times> entity) list"
  emitted :: "game_message list"

definition collectLoot :: "string \<Rightarrow> string \<Rightarrow> game \<Rightarrow> game" where
  "collectLoot playerId lootId g =
     (case map_of (gplayers g) playerId of
        None \<Rightarrow> g
      | Some p \<Rightarrow>
          (case map_of (lootItems g) lootId of
             None \<Rightarrow> g
           | Some l \<Rightarrow>
               (let p' = (case loot_kind l of
                            DoubleMove \<Rightarrow> p\<lparr>hasDoubleMove := True\<rparr>
                          | PetalShield \<Rightarrow>
                              p\<lparr>hasShield := True, shieldDuration := Some (duration l)\<rparr>
                          | VineTrap \<Rightarrow> p\<lparr>hasVineTrap := True\<rparr>)
                in g\<lparr>gplayers := AList.update playerId p' (gplayers g),
                      lootItems := AList.delete lootId (lootItems g),
                      emitted := emitted g @ [LootCollect playerId lootId (loot_kind l)]\<rparr>)))"

text \<open>
  The list \<open>validMoves\<close> of \<open>moveNeutralEntity\<close>: the four squares next to the
  entity's position that are on the board.
\<close>

definition validMoves :: "pos \<Rightarrow> pos list" where
  "validMoves position0 =
     filter (\<lambda>move. fst move \<ge> 0 \<and> fst move < 8 \<and> snd move \<ge> 0 \<and> snd move < 8)
       [(fst position0 + 1, snd position0),
        (fst position0 - 1, snd position0),
        (fst position0, snd position0 + 1),
        (fst position0, snd position0 - 1)]"

text \<open>
  \<open>moveNeutralEntity\<close>; \<open>r\<close> stands for the random draw, and
  \<open>Math.floor(Math.random() * validMoves.length)\<close> is the index \<open>r mod length validMoves\<close>.
\<close>

definition moveNeutralEntity :: "string \<Rightarrow> nat \<Rightarrow> game \<Rightarrow> game" where
  "moveNeutralEntity entityId r g =
     (case map_of (entities g) entityId of
        None \<Rightarrow> g
      | Some e \<Rightarrow>
          (let vm = validMoves (ent_position e)
           in if length vm > 0 then
                (let newPosition = vm ! (r mod length vm);
                     hit = (\<lambda>p. gp_position p = Some newPosition)
                 in g\<lparr>entities :=
                        AList.update entityId (e\<lparr>ent_position := newPosition\<rparr>) (entities g),
                      gplayers :=
                        map (\<lambda>(k, p). if hit p then (k, p\<lparr>gp_hp := jsMinus (gp_hp p) 2\<rparr>)
                                       else (k, p))
                          (gplayers g),
                      emitted := emitted g @
                        map (\<lambda>(k, p). PlayerDamage (gp_id p) 2 (jsMinus (gp_hp p) 2))
                          (filter (\<lambda>(k, p). hit p) (gplayers g))\<rparr>)
              else g))"

text \<open>The state in which the constructor of \<open>Game\<close> leaves the three maps.\<close>

definition newGame :: game where
  "newGame = \<lparr>gplayers = [], lootItems = [], entities = [], emitted = []\<rparr>"

section \<open>Notions used to state the properties\<close>

text \<open>The directions along which each sliding piece casts its rays.\<close>

definition rayDirections :: "piece_type \<Rightarrow> pos list" where
  "rayDirections ty =
     (case ty of
        Rook \<Rightarrow> rookDirections
      | Bishop \<Rightarrow> bishopDirections
      | Queen \<Rightarrow> rookDirections @ bishopDirections
      | _ \<Rightarrow> [])"

text \<open>
  The square \<open>m\<close> is the \<open>k\<close>-th square of the ray from \<open>p\<close> along \<open>d\<close> for some \<open>k\<close>
  from \<open>i\<close> to 7, every square of the ray from the \<open>i\<close>-th to the \<open>k\<close>-th is on the
  board, every one before the \<open>k\<close>-th is empty, and \<open>m\<close> is empty or holds an
  opponent of team \<open>t\<close>.
\<close>

definition rayReaches :: "board \<Rightarrow> team \<Rightarrow> pos \<Rightarrow> pos \<Rightarrow> int \<Rightarrow> pos \<Rightarrow> bool" where
  "rayReaches b t p d i m \<longleftrightarrow>
     (\<exists>k. i \<le> k \<and> k < 8 \<and> m = rayStep p d k
        \<and> (\<forall>j. i \<le> j \<and> j \<le> k \<longrightarrow> isValidPosition (rayStep p d j))
        \<and> (\<forall>j. i \<le> j \<and> j < k \<longrightarrow> \<not> isPositionOccupied b (rayStep p d j))
        \<and> (\<not> isPositionOccupied b m \<or> isOpponentPiece b m t))"

definition unitDir :: "pos \<Rightarrow> bool" where
  "unitDir d = (fst d \<in> {- 1, 0, 1} \<and> snd d \<in> {- 1, 0, 1} \<and> d \<noteq> (0, 0))"

text \<open>A pawn's forward direction along \<open>z\<close> and its home row, by team.\<close>

fun forwardStep :: "team \<Rightarrow> int" where
  "forwardStep White = - 1"
| "forwardStep Black = 1"

fun homeRow :: "team \<Rightarrow> int" where
  "homeRow White = 6"
| "homeRow Black = 1"

section \<open>Example boards and states\<close>

definition emptyRow :: "cell option list" where
  "emptyRow = replicate 8 None"

text \<open>A white rook on \<open>(0, 0)\<close> and a black pawn on \<open>(0, 3)\<close>.\<close>

definition rookBoard :: board where
  "rookBoard =
     [Some \<lparr>cid = ''r'', ctype = Rook, cteam = White\<rparr> # replicate 7 None,
      emptyRow, emptyRow,
      Some \<lparr>cid = ''p'', ctype = Pawn, cteam = Black\<rparr> # replicate 7 None,
      emptyRow, emptyRow, emptyRow, emptyRow]"

text \<open>A white pawn on its home square \<open>(4, 6)\<close>, alone on the board.\<close>

definition pawnBoard :: board where
  "pawnBoard =
     [emptyRow, emptyRow, emptyRow, emptyRow, emptyRow, emptyRow,
      [None, None, None, None, Some \<lparr>cid = ''w'', ctype = Pawn, cteam = White\<rparr>,
       None, None, None],
      emptyRow]"

text \<open>A freshly registered player, as \<open>confirmPieceAssignment\<close> stores it at time \<open>0\<close>.\<close>

definition newPlayer :: "string \<Rightarrow> piece_type \<Rightarrow> team \<Rightarrow> pos \<Rightarrow> int \<Rightarrow> player" where
  "newPlayer i ty tm q h =
     \<lparr>pid = i, ptype = ty, team = tm, position = q, hp = h, effects = [],
      lastMoveTime = 0, respawning = False, playerRespawnTime = None, isSpectator = False\<rparr>"

text \<open>
  Three registrations: a white knight on \<open>(1, 7)\<close>, a black king on \<open>(4, 0)\<close> and a
  white pawn on \<open>(2, 5)\<close>.
\<close>

definition knightArena :: server where
  "knightArena =
     confirmPieceAssignment 0
       \<lparr>cd_id = ''p'', cd_type = Pawn, cd_team = White, cd_position = (2, 5), cd_hp = Some 5\<rparr>
       (confirmPieceAssignment 0
          \<lparr>cd_id = ''k'', cd_type = King, cd_team = Black, cd_position = (4, 0), cd_hp = Some 15\<rparr>
          (confirmPieceAssignment 0
             \<lparr>cd_id = ''n'', cd_type = Knight, cd_team = White, cd_position = (1, 7),
              cd_hp = Some 7\<rparr>
             (initialServer 0)))"

text \<open>
  Two registrations: a white pawn \<open>a\<close> on \<open>(4, 6)\<close> and a black king \<open>k\<close> with 15 HP
  on \<open>(4, 5)\<close>; and an \<open>ability\<close> message from \<open>a\<close> aimed at the king's square with
  damage 20.
\<close>

definition kingArena :: server where
  "kingArena =
     confirmPieceAssignment 0
       \<lparr>cd_id = ''k'', cd_type = King, cd_team = Black, cd_position = (4, 5), cd_hp = Some 15\<rparr>
       (confirmPieceAssignment 0
          \<lparr>cd_id = ''a'', cd_type = Pawn, cd_team = White, cd_position = (4, 6), cd_hp = Some 5\<rparr>
          (initialServer 0))"

definition strike :: ability_data where
  "strike = \<lparr>ad_id = ''a'', ad_target = (4, 5), ad_damage = Some 20\<rparr>"

text \<open>The client-side piece of \<open>a\<close>, three seconds into its cooldown.\<close>

definition coolingPawn :: chess_piece where
  "coolingPawn = \<lparr>cp_id = ''a'', cp_type = Pawn, cp_team = White, cp_hp = 5, cooldown = 3\<rparr>"



text \<open>The state after the server has handled \<open>strike\<close> at time 1000.\<close>

definition kingDefeated :: server where
  "kingDefeated = abilityHandler gameSettings 1000 strike kingArena"


text \<open>
  Three registrations: a white rook \<open>r\<close> on \<open>(0, 0)\<close>, a black king \<open>k\<close> on \<open>(4, 7)\<close>
  and a white pawn \<open>p\<close> on \<open>(0, 3)\<close>.
\<close>

definition rookArena :: server where
  "rookArena =
     confirmPieceAssignment 0
       \<lparr>cd_id = ''p'', cd_type = Pawn, cd_team = White, cd_position = (0, 3), cd_hp = Some 5\<rparr>
       (confirmPieceAssignment 0
          \<lparr>cd_id = ''k'', cd_type = King, cd_team = Black, cd_position = (4, 7), cd_hp = Some 15\<rparr>
          (confirmPieceAssignment 0
             \<lparr>cd_id = ''r'', cd_type = Rook, cd_team = White, cd_position = (0, 0),
              cd_hp = Some 7\<rparr>
             (initialServer 0)))"

text \<open>
  Two registrations: a white pawn \<open>w\<close> on its home square \<open>(4, 6)\<close> and a black pawn
  \<open>b\<close> right in front of it on \<open>(4, 5)\<close>.
\<close>

definition pawnArena :: server where
  "pawnArena =
     confirmPieceAssignment 0
       \<lparr>cd_id = ''b'', cd_type = Pawn, cd_team = Black, cd_position = (4, 5), cd_hp = Some 5\<rparr>
       (confirmPieceAssignment 0
          \<lparr>cd_id = ''w'', cd_type = Pawn, cd_team = White, cd_position = (4, 6), cd_hp = Some 5\<rparr>
          (initialServer 0))"



section \<open>The move generator: membership in a ray\<close>

text \<open>
  The ray loop started at \<open>i\<close> produces exactly the squares that \<open>rayReaches\<close>
  describes.
\<close>

lemma rayReaches_first:
  assumes "i < 8" "isValidPosition (rayStep p d i)"
    "\<not> isPositionOccupied b (rayStep p d i) \<or> isOpponentPiece b (rayStep p d i) t"
  shows "rayReaches b t p d i (rayStep p d i)"
  unfolding rayReaches_def using assms by (intro exI[of _ i]) auto

lemma rayReaches_later:
  assumes "isValidPosition (rayStep p d i)" "\<not> isPositionOccupied b (rayStep p d i)"
    "rayReaches b t p d (i + 1) m"
  shows "rayReaches b t p d i m"
proof -
  from assms(3) obtain k where k: "i + 1 \<le> k" "k < 8" "m = rayStep p d k"
    "\<forall>j. i + 1 \<le> j \<and> j \<le> k \<longrightarrow> isValidPosition (rayStep p d j)"
    "\<forall>j. i + 1 \<le> j \<and> j < k \<longrightarrow> \<not> isPositionOccupied b (rayStep p d j)"
    "\<not> isPositionOccupied b m \<or> isOpponentPiece b m t"
    unfolding rayReaches_def by blast
  have "isValidPosition (rayStep p d j)" if "i \<le> j \<and> j \<le> k" for j
  proof -
    from that have "j = i \<or> (i + 1 \<le> j \<and> j \<le> k)" by arith
    then show ?thesis using assms(1) k(4) by blast
  qed
  moreover have "\<not> isPositionOccupied b (rayStep p d j)" if "i \<le> j \<and> j < k" for j
  proof -
    from that have "j = i \<or> (i + 1 \<le> j \<and> j < k)" by arith
    then show ?thesis using assms(2) k(5) by blast
  qed
  ultimately show ?thesis
    unfolding rayReaches_def using k(1,2,3,6) by (intro exI[of _ k]) auto
qed

lemma rayReaches_cases:
  assumes "rayReaches b t p d i m"
  shows "i < 8 \<and> isValidPosition (rayStep p d i)
     \<and> (if isPositionOccupied b (rayStep p d i)
         then m = rayStep p d i \<and> isOpponentPiece b m t
         else m = rayStep p d i \<or> rayReaches b t p d (i + 1) m)"
proof -
  from assms obtain k where k: "i \<le> k" "k < 8" "m = rayStep p d k"
    "\<forall>j. i \<le> j \<and> j \<le> k \<longrightarrow> isValidPosition (rayStep p d j)"
    "\<forall>j. i \<le> j \<and> j < k \<longrightarrow> \<not> isPositionOccupied b (rayStep p d j)"
    "\<not> isPositionOccupied b m \<or> isOpponentPiece b m t"
    unfolding rayReaches_def by blast
  have i8: "i < 8" using k(1,2) by simp
  have vi: "isValidPosition (rayStep p d i)" using k(1,4) by simp
  show ?thesis
  proof (cases "k = i")
    case True
    then show ?thesis using i8 vi k(3,6) by auto
  next
    case False
    then have lt: "i < k" using k(1) by simp
    then have free: "\<not> isPositionOccupied b (rayStep p d i)" using k(5) by simp
    have "rayReaches b t p d (i + 1) m"
      unfolding rayReaches_def using lt k by (intro exI[of _ k]) auto
    then show ?thesis using i8 vi free by simp
  qed
qed

lemma rayReaches_unfold:
  "rayReaches b t p d i m \<longleftrightarrow>
     i < 8 \<and> isValidPosition (rayStep p d i)
     \<and> (if isPositionOccupied b (rayStep p d i)
         then m = rayStep p d i \<and> isOpponentPiece b m t
         else m = rayStep p d i \<or> rayReaches b t p d (i + 1) m)"
  using rayReaches_cases[of b t p d i m] rayReaches_first[of i p d b t]
    rayReaches_later[of p d i b t m]
  by (auto split: if_splits)

lemma rayLoop_reaches: "m \<in> set (rayLoop b t p d i) \<longleftrightarrow> rayReaches b t p d i m"
proof (induction b t p d i rule: rayLoop.induct)
  case (1 b t p d i)
  have IH: "m \<in> set (rayLoop b t p d (i + 1)) \<longleftrightarrow> rayReaches b t p d (i + 1) m"
    if "i < 8" "isValidPosition (rayStep p d i)" "\<not> isPositionOccupied b (rayStep p d i)"
    using "1.IH"[OF that(1) refl] that(2,3) by simp
  show ?case
    by (subst rayLoop.simps, subst rayReaches_unfold) (use IH in \<open>auto simp: Let_def\<close>)
qed

lemma rayLoop_mem:
  "m \<in> set (rayLoop b t p d i) \<longleftrightarrow>
     (\<exists>k. i \<le> k \<and> k < 8 \<and> m = rayStep p d k
        \<and> (\<forall>j. i \<le> j \<and> j \<le> k \<longrightarrow> isValidPosition (rayStep p d j))
        \<and> (\<forall>j. i \<le> j \<and> j < k \<longrightarrow> \<not> isPositionOccupied b (rayStep p d j))
        \<and> (\<not> isPositionOccupied b m \<or> isOpponentPiece b m t))"
  unfolding rayLoop_reaches rayReaches_def ..

lemma rayDirections_unit: "d \<in> set (rayDirections ty) \<Longrightarrow> unitDir d"
  by (cases ty) (auto simp: rayDirections_def rookDirections_def bishopDirections_def unitDir_def)

lemma scaled_unit_eq:
  fixes j k a b :: int
  assumes "1 \<le> j" "1 \<le> k" "a \<in> {- 1, 0, 1}" "b \<in> {- 1, 0, 1}" "a * j = b * k"
  shows "a = b"
  using assms by auto

lemma rayStep_inj:
  assumes "unitDir d" "unitDir d'" "1 \<le> j" "1 \<le> k" "rayStep p d j = rayStep p d' k"
  shows "d = d' \<and> j = k"
proof -
  have x: "fst d * j = fst d' * k" and z: "snd d * j = snd d' * k"
    using assms(5) by (simp_all add: rayStep_def)
  have "fst d = fst d'"
    using scaled_unit_eq[OF assms(3,4) _ _ x] assms(1,2) by (simp add: unitDir_def)
  moreover have "snd d = snd d'"
    using scaled_unit_eq[OF assms(3,4) _ _ z] assms(1,2) by (simp add: unitDir_def)
  ultimately have dd: "d = d'" by (simp add: prod_eq_iff)
  have "fst d \<noteq> 0 \<or> snd d \<noteq> 0"
    using assms(1) by (auto simp: unitDir_def prod_eq_iff)
  then have "j = k" using x z dd by auto
  with dd show ?thesis by simp
qed

lemma rayStep_between:
  assumes "unitDir d" "isValidPosition p" "isValidPosition (rayStep p d k)" "0 \<le> j" "j \<le> k"
  shows "isValidPosition (rayStep p d j)"
  using assms by (auto simp: unitDir_def isValidPosition_def rayStep_def)

lemma rayStep_bound:
  assumes "unitDir d" "isValidPosition p" "isValidPosition (rayStep p d k)"
  shows "k < 8"
  using assms by (auto simp: unitDir_def isValidPosition_def rayStep_def prod_eq_iff)

lemma getPieceAt_valid: "getPieceAt b p = Some c \<Longrightarrow> isValidPosition p"
  by (auto simp: getPieceAt_def split: if_splits)

lemma occupied_valid: "isPositionOccupied b p \<Longrightarrow> isValidPosition p"
  by (auto simp: isPositionOccupied_def split: if_splits)

lemma slider_moves_mem:
  assumes "getPieceAt b p = Some c" "ctype c \<in> {Rook, Bishop, Queen}"
  shows "m \<in> set (getValidMoves b p) \<longleftrightarrow>
           (\<exists>d \<in> set (rayDirections (ctype c)). m \<in> set (rayLoop b (cteam c) p d 1))"
  using assms getPieceAt_valid[OF assms(1)]
  by (auto simp: getValidMoves_def rayDirections_def getRookMoves_def getBishopMoves_def
        getQueenMoves_def)

section \<open>Sliding pieces stop at the first occupied square\<close>

text \<open>
  In the move generator, for a rook, bishop or queen standing on \<open>p\<close> and each
  direction \<open>d\<close> of its
  ray-cast: if the \<open>k\<close>-th square along \<open>d\<close> is the first occupied one, then no
  square of that ray strictly beyond it is among the legal destinations, and the
  \<open>k\<close>-th square itself is a legal destination if and only if its occupant
  belongs to the opposing team.
\<close>

theorem ray_stops_at_first_occupied:
  assumes piece: "getPieceAt b p = Some c"
    and slider: "ctype c \<in> {Rook, Bishop, Queen}"
    and dir: "d \<in> set (rayDirections (ctype c))"
    and k1: "1 \<le> k"
    and free: "\<forall>j. 1 \<le> j \<and> j < k \<longrightarrow> \<not> isPositionOccupied b (rayStep p d j)"
    and occ: "isPositionOccupied b (rayStep p d k)"
  shows "(\<forall>j. k < j \<longrightarrow> rayStep p d j \<notin> set (getValidMoves b p))
       \<and> (rayStep p d k \<in> set (getValidMoves b p)
            \<longleftrightarrow> isOpponentPiece b (rayStep p d k) (cteam c))"
proof -
  have vp: "isValidPosition p" using piece by (rule getPieceAt_valid)
  have ud: "unitDir d" using dir by (rule rayDirections_unit)
  have vk: "isValidPosition (rayStep p d k)" using occ by (rule occupied_valid)
  have on_ray: "(\<forall>j. 1 \<le> j \<and> j < n \<longrightarrow> \<not> isPositionOccupied b (rayStep p d j))
        \<and> (\<not> isPositionOccupied b (rayStep p d n) \<or> isOpponentPiece b (rayStep p d n) (cteam c))"
    if n: "1 \<le> n" and mem: "rayStep p d n \<in> set (getValidMoves b p)" for n
  proof -
    from mem obtain d' where d': "d' \<in> set (rayDirections (ctype c))"
      and r: "rayStep p d n \<in> set (rayLoop b (cteam c) p d' 1)"
      using slider_moves_mem[OF piece slider] by blast
    from r obtain i where i: "1 \<le> i" "rayStep p d n = rayStep p d' i"
      "\<forall>j. 1 \<le> j \<and> j < i \<longrightarrow> \<not> isPositionOccupied b (rayStep p d' j)"
      "\<not> isPositionOccupied b (rayStep p d n) \<or> isOpponentPiece b (rayStep p d n) (cteam c)"
      unfolding rayLoop_mem by blast
    have "d = d' \<and> n = i"
      using rayStep_inj[OF ud rayDirections_unit[OF d'] n i(1) i(2)] .
    with i show ?thesis by auto
  qed
  have past: "\<forall>j. k < j \<longrightarrow> rayStep p d j \<notin> set (getValidMoves b p)"
  proof (intro allI impI notI)
    fix j assume kj: "k < j" and mem: "rayStep p d j \<in> set (getValidMoves b p)"
    have "1 \<le> j" using k1 kj by simp
    from on_ray[OF this mem]
    have "\<forall>i. 1 \<le> i \<and> i < j \<longrightarrow> \<not> isPositionOccupied b (rayStep p d i)" by auto
    with k1 kj occ show False by blast
  qed
  have at: "rayStep p d k \<in> set (getValidMoves b p)
            \<longleftrightarrow> isOpponentPiece b (rayStep p d k) (cteam c)"
  proof
    assume "rayStep p d k \<in> set (getValidMoves b p)"
    from on_ray[OF k1 this] occ
    show "isOpponentPiece b (rayStep p d k) (cteam c)" by auto
  next
    assume opp: "isOpponentPiece b (rayStep p d k) (cteam c)"
    have k8: "k < 8" using rayStep_bound[OF ud vp vk] .
    have allv: "\<forall>j. 1 \<le> j \<and> j \<le> k \<longrightarrow> isValidPosition (rayStep p d j)"
      using rayStep_between[OF ud vp vk] by auto
    have "rayStep p d k \<in> set (rayLoop b (cteam c) p d 1)"
      unfolding rayLoop_mem using k1 k8 allv free opp by (intro exI[of _ k]) auto
    then show "rayStep p d k \<in> set (getValidMoves b p)"
      using slider_moves_mem[OF piece slider] dir by blast
  qed
  from past at show ?thesis by simp
qed


theorem ray_stops_at_first_occupied_witness:
  "rayStep (0, 0) (0, 1) 4 \<notin> set (getValidMoves rookBoard (0, 0))
   \<and> rayStep (0, 0) (0, 1) 3 \<in> set (getValidMoves rookBoard (0, 0))"
proof -
  let ?c = "\<lparr>cid = ''r'', ctype = Rook, cteam = White\<rparr>"
  have piece: "getPieceAt rookBoard (0, 0) = Some ?c"
    by (simp add: getPieceAt_def isValidPosition_def rookBoard_def)
  have slider: "ctype ?c \<in> {Rook, Bishop, Queen}" by simp
  have dir: "(0, 1) \<in> set (rayDirections (ctype ?c))"
    by (simp add: rayDirections_def rookDirections_def)
  have free: "\<forall>j. 1 \<le> j \<and> j < 3 \<longrightarrow> \<not> isPositionOccupied rookBoard (rayStep (0, 0) (0, 1) j)"
  proof (intro allI impI)
    fix j :: int assume "1 \<le> j \<and> j < 3"
    then have "j = 1 \<or> j = 2" by arith
    then show "\<not> isPositionOccupied rookBoard (rayStep (0, 0) (0, 1) j)"
      by (auto simp: isPositionOccupied_def getPieceAt_def isValidPosition_def rookBoard_def
            emptyRow_def rayStep_def)
  qed
  have occ: "isPositionOccupied rookBoard (rayStep (0, 0) (0, 1) 3)"
    by (simp add: isPositionOccupied_def getPieceAt_def isValidPosition_def rookBoard_def
          rayStep_def)
  have opp: "isOpponentPiece rookBoard (rayStep (0, 0) (0, 1) 3) (cteam ?c)"
    by (simp add: isOpponentPiece_def getPieceAt_def isValidPosition_def rookBoard_def
          rayStep_def)
  from ray_stops_at_first_occupied[OF piece slider dir _ free occ] opp
  show ?thesis by simp
qed

section \<open>Pawn moves\<close>

text \<open>
  In the move generator, for a pawn standing on \<open>(x, z)\<close>, a square is a legal
  destination exactly
  when it is on the board and is one of: the square one step forward (towards
  decreasing \<open>z\<close> for white, increasing \<open>z\<close> for black), if that square is empty; the
  square two steps forward, if the pawn is on its home row (6 for white, 1 for
  black) and both the square in between and the target are empty; a diagonally
  forward-adjacent square, if an opponent stands on it.
\<close>

theorem pawn_moves_exact:
  assumes piece: "getPieceAt b (x, z) = Some c" and pawn: "ctype c = Pawn"
  shows "m \<in> set (getValidMoves b (x, z)) \<longleftrightarrow>
     isValidPosition m \<and>
     ((m = (x, z + forwardStep (cteam c)) \<and> \<not> isPositionOccupied b m)
      \<or> (m = (x, z + 2 * forwardStep (cteam c)) \<and> z = homeRow (cteam c)
           \<and> \<not> isPositionOccupied b (x, z + forwardStep (cteam c))
           \<and> \<not> isPositionOccupied b m)
      \<or> ((m = (x - 1, z + forwardStep (cteam c)) \<or> m = (x + 1, z + forwardStep (cteam c)))
           \<and> isOpponentPiece b m (cteam c)))"
proof -
  have vp: "isValidPosition (x, z)" using piece by (rule getPieceAt_valid)
  have disp: "getValidMoves b (x, z) = getPawnMoves b (x, z) (cteam c)"
    using piece pawn vp by (simp add: getValidMoves_def)
  show ?thesis
  proof (cases "cteam c")
    case White
    have fwd_valid: "z = 6 \<Longrightarrow> isValidPosition (x, z - 1)"
      using vp by (simp add: isValidPosition_def)
    show ?thesis
      unfolding disp using White fwd_valid
      by (auto simp: getPawnMoves_def Let_def)
  next
    case Black
    have fwd_valid: "z = 1 \<Longrightarrow> isValidPosition (x, z + 1)"
      using vp by (simp add: isValidPosition_def)
    show ?thesis
      unfolding disp using Black fwd_valid
      by (auto simp: getPawnMoves_def Let_def)
  qed
qed

theorem pawn_moves_exact_witness:
  "(4, 5) \<in> set (getValidMoves pawnBoard (4, 6))
   \<and> (4, 4) \<in> set (getValidMoves pawnBoard (4, 6))
   \<and> (4, 3) \<notin> set (getValidMoves pawnBoard (4, 6))
   \<and> (3, 5) \<notin> set (getValidMoves pawnBoard (4, 6))"
proof -
  let ?c = "\<lparr>cid = ''w'', ctype = Pawn, cteam = White\<rparr>"
  have piece: "getPieceAt pawnBoard (4, 6) = Some ?c"
    by (simp add: getPieceAt_def isValidPosition_def pawnBoard_def emptyRow_def)
  have pawn: "ctype ?c = Pawn" by simp
  note e = pawn_moves_exact[OF piece pawn]
  show ?thesis
    unfolding e
    by (simp add: isPositionOccupied_def isOpponentPiece_def getPieceAt_def
          isValidPosition_def pawnBoard_def emptyRow_def)
qed

section \<open>No generated move leaves the board or lands on the mover's own team\<close>

lemma empty_or_opponent_not_own:
  assumes "isValidPosition m" "\<not> isPositionOccupied b m \<or> isOpponentPiece b m t"
  shows "\<forall>c'. getPieceAt b m = Some c' \<longrightarrow> cteam c' \<noteq> t"
  using assms by (auto simp: isPositionOccupied_def isOpponentPiece_def)

lemma getValidMoves_on_board_not_own:
  assumes piece: "getPieceAt b p = Some c" and mem: "m \<in> set (getValidMoves b p)"
  shows "isValidPosition m \<and> (\<forall>c'. getPieceAt b m = Some c' \<longrightarrow> cteam c' \<noteq> cteam c)"
proof -
  have vp: "isValidPosition p" using piece by (rule getPieceAt_valid)
  have "isValidPosition m \<and> (\<not> isPositionOccupied b m \<or> isOpponentPiece b m (cteam c))"
  proof (cases "ctype c")
    case Pawn
    then have "m \<in> set (getPawnMoves b p (cteam c))"
      using piece mem vp by (simp add: getValidMoves_def)
    then show ?thesis
      by (auto simp: getPawnMoves_def Let_def split: if_splits)
  next
    case Knight
    then show ?thesis
      using piece mem vp by (auto simp: getValidMoves_def getKnightMoves_def)
  next
    case King
    then show ?thesis
      using piece mem vp by (auto simp: getValidMoves_def getKingMoves_def)
  next
    case Rook
    then have "ctype c \<in> {Rook, Bishop, Queen}" by simp
    from slider_moves_mem[OF piece this] mem show ?thesis
      unfolding rayLoop_mem by auto
  next
    case Bishop
    then have "ctype c \<in> {Rook, Bishop, Queen}" by simp
    from slider_moves_mem[OF piece this] mem show ?thesis
      unfolding rayLoop_mem by auto
  next
    case Queen
    then have "ctype c \<in> {Rook, Bishop, Queen}" by simp
    from slider_moves_mem[OF piece this] mem show ?thesis
      unfolding rayLoop_mem by auto
  qed
  then show ?thesis using empty_or_opponent_not_own by blast
qed

section \<open>The server's move validation\<close>

text \<open>
  \<open>validateMove\<close> rejects every destination that is off the board.
\<close>

lemma validateMove_off_board:
  "\<not> isValidPosition d \<Longrightarrow> validateMove ps p (Some d) = Some False"
  by (auto simp: validateMove_def isValidPosition_def)

text \<open>
  A straight or diagonal move from \<open>s\<close> to \<open>e\<close> is a walk of some number of steps
  in the direction that \<open>isPathBlocked\<close> computes, so the loop of \<open>isPathBlocked\<close>
  arrives at \<open>e\<close> and \<open>validateMove\<close> returns for every request.
\<close>

lemma line_walk:
  fixes s e :: pos
  assumes "fst e = fst s \<or> snd e = snd s \<or> \<bar>fst e - fst s\<bar> = \<bar>snd e - snd s\<bar>"
  defines "dx \<equiv> (if fst e > fst s then 1 else if fst e < fst s then - 1 else 0 :: int)"
    and "dz \<equiv> (if snd e > snd s then 1 else if snd e < snd s then - 1 else 0 :: int)"
  shows "\<exists>n. fst e = (fst s + dx) + int n * dx \<and> snd e = (snd s + dz) + int n * dz
              \<and> (n = 0 \<or> dx \<noteq> 0 \<or> dz \<noteq> 0)"
proof (cases "e = s")
  case True
  then show ?thesis by (intro exI[of _ 0]) (simp add: dx_def dz_def)
next
  case False
  define n where "n = nat (max \<bar>fst e - fst s\<bar> \<bar>snd e - snd s\<bar>) - 1"
  have x: "fst e = (fst s + dx) + int n * dx"
    using assms(1) False by (auto simp: n_def dx_def prod_eq_iff algebra_simps max_def split: if_splits)
  have z: "snd e = (snd s + dz) + int n * dz"
    using assms(1) False by (auto simp: n_def dz_def prod_eq_iff algebra_simps max_def split: if_splits)
  have "dx \<noteq> 0 \<or> dz \<noteq> 0"
    using False by (auto simp: dx_def dz_def prod_eq_iff)
  with x z show ?thesis by blast
qed

lemma isPathBlocked_loop_returns:
  assumes "fst end0 = cx + int n * dx" "snd end0 = cz + int n * dz" "n = 0 \<or> dx \<noteq> 0 \<or> dz \<noteq> 0"
  shows "\<exists>r. isPathBlocked_loop ps dx dz end0 cx cz = Some r"
  using assms
proof (induction n arbitrary: cx cz)
  case 0
  then show ?case by (subst isPathBlocked_loop.simps) auto
next
  case (Suc n)
  have "fst end0 = (cx + dx) + int n * dx" "snd end0 = (cz + dz) + int n * dz"
    using Suc.prems by (simp_all add: algebra_simps)
  moreover have "n = 0 \<or> dx \<noteq> 0 \<or> dz \<noteq> 0" using Suc.prems by simp
  ultimately have "\<exists>r. isPathBlocked_loop ps dx dz end0 (cx + dx) (cz + dz) = Some r"
    by (rule Suc.IH)
  then show ?case by (subst isPathBlocked_loop.simps) auto
qed

lemma isPathBlocked_returns:
  assumes "fst e = fst s \<or> snd e = snd s \<or> \<bar>fst e - fst s\<bar> = \<bar>snd e - snd s\<bar>"
  shows "\<not> Option.is_none (isPathBlocked ps s e)"
proof -
  from line_walk[OF assms] obtain n where
    "fst e = (fst s + (if fst e > fst s then 1 else if fst e < fst s then - 1 else 0)) +
       int n * (if fst e > fst s then 1 else if fst e < fst s then - 1 else 0)"
    "snd e = (snd s + (if snd e > snd s then 1 else if snd e < snd s then - 1 else 0)) +
       int n * (if snd e > snd s then 1 else if snd e < snd s then - 1 else 0)"
    "n = 0 \<or> (if fst e > fst s then 1 else if fst e < fst s then - 1 else 0 :: int) \<noteq> 0
       \<or> (if snd e > snd s then 1 else if snd e < snd s then - 1 else 0 :: int) \<noteq> 0"
    by blast
  then have "\<exists>r. isPathBlocked_loop ps
      (if fst e > fst s then 1 else if fst e < fst s then - 1 else 0)
      (if snd e > snd s then 1 else if snd e < snd s then - 1 else 0) e
      (fst s + (if fst e > fst s then 1 else if fst e < fst s then - 1 else 0))
      (snd s + (if snd e > snd s then 1 else if snd e < snd s then - 1 else 0)) = Some r"
    by (rule isPathBlocked_loop_returns)
  then show ?thesis
    unfolding isPathBlocked_def Let_def by (auto simp: Option.is_none_def)
qed

lemma validateMove_not_None: "\<not> Option.is_none (validateMove ps p req)"
proof (cases req)
  case None
  then show ?thesis by (simp add: validateMove_def)
next
  case (Some d)
  let ?dx = "\<bar>fst d - fst (position p)\<bar>" and ?dz = "\<bar>snd d - snd (position p)\<bar>"
  have a: "?dx = 0 \<Longrightarrow> \<not> Option.is_none (isPathBlocked ps (position p) d)"
    by (rule isPathBlocked_returns) simp
  have b: "?dz = 0 \<Longrightarrow> \<not> Option.is_none (isPathBlocked ps (position p) d)"
    by (rule isPathBlocked_returns) simp
  have c: "?dx = ?dz \<Longrightarrow> \<not> Option.is_none (isPathBlocked ps (position p) d)"
    by (rule isPathBlocked_returns) simp
  show ?thesis
  proof (cases "ptype p")
    case Pawn
    then show ?thesis using Some by (simp add: validateMove_def Let_def Option.is_none_map_option)
  next
    case Rook
    then show ?thesis using Some a b by (simp add: validateMove_def Let_def Option.is_none_map_option)
  next
    case Knight
    then show ?thesis using Some by (simp add: validateMove_def Let_def Option.is_none_map_option)
  next
    case Bishop
    then show ?thesis using Some c by (simp add: validateMove_def Let_def Option.is_none_map_option)
  next
    case Queen
    then show ?thesis using Some a b c by (simp add: validateMove_def Let_def Option.is_none_map_option)
  next
    case King
    then show ?thesis using Some by (simp add: validateMove_def Let_def Option.is_none_map_option)
  qed
qed

lemma validateMove_returns: "\<exists>r. validateMove ps p req = Some r"
  using validateMove_not_None[of ps p req] by (auto simp: Option.is_none_def)

text \<open>
  A rook, bishop or queen may not pass an occupied square: a piece standing on the
  line strictly between the mover and the destination makes \<open>validateMove\<close>
  reject the move.
\<close>

lemma isPathBlocked_loop_blocked:
  assumes "fst end0 = cx + int n * dx" "snd end0 = cz + int n * dz" "dx \<noteq> 0 \<or> dz \<noteq> 0"
    "j < n" "isAnyPieceAt ps (cx + int j * dx, cz + int j * dz)"
  shows "isPathBlocked_loop ps dx dz end0 cx cz = Some True"
  using assms
proof (induction j arbitrary: cx cz n)
  case 0
  then have "cx \<noteq> fst end0 \<or> cz \<noteq> snd end0" by auto
  then show ?case using 0 by (subst isPathBlocked_loop.simps) auto
next
  case (Suc j)
  then obtain m where n: "n = Suc m" by (cases n) auto
  have ne: "cx \<noteq> fst end0 \<or> cz \<noteq> snd end0" using Suc.prems n by auto
  have "isPathBlocked_loop ps dx dz end0 (cx + dx) (cz + dz) = Some True"
  proof (rule Suc.IH[where n = m])
    show "fst end0 = cx + dx + int m * dx" using Suc.prems(1) n by (simp add: algebra_simps)
    show "snd end0 = cz + dz + int m * dz" using Suc.prems(2) n by (simp add: algebra_simps)
    show "dx \<noteq> 0 \<or> dz \<noteq> 0" by (rule Suc.prems(3))
    show "j < m" using Suc.prems(4) n by simp
    show "isAnyPieceAt ps (cx + dx + int j * dx, cz + dz + int j * dz)"
      using Suc.prems(5) by (simp add: algebra_simps)
  qed
  then show ?case using ne by (subst isPathBlocked_loop.simps) auto
qed

lemma isPathBlocked_blocked:
  assumes ud: "unitDir d" and n: "1 \<le> n" and j: "1 \<le> j" "j < n"
    and occ: "isAnyPieceAt ps (rayStep s d j)"
  shows "isPathBlocked ps s (rayStep s d n) = Some True"
proof -
  have dx: "(if fst (rayStep s d n) > fst s then 1 else if fst (rayStep s d n) < fst s then - 1 else 0)
              = fst d"
    using ud n by (auto simp: unitDir_def rayStep_def)
  have dz: "(if snd (rayStep s d n) > snd s then 1 else if snd (rayStep s d n) < snd s then - 1 else 0)
              = snd d"
    using ud n by (auto simp: unitDir_def rayStep_def)
  have "isPathBlocked_loop ps (fst d) (snd d) (rayStep s d n) (fst s + fst d) (snd s + snd d)
          = Some True"
  proof (rule isPathBlocked_loop_blocked[where n = "nat (n - 1)" and j = "nat (j - 1)"])
    show "fst (rayStep s d n) = fst s + fst d + int (nat (n - 1)) * fst d"
      using n by (simp add: rayStep_def algebra_simps)
    show "snd (rayStep s d n) = snd s + snd d + int (nat (n - 1)) * snd d"
      using n by (simp add: rayStep_def algebra_simps)
    show "fst d \<noteq> 0 \<or> snd d \<noteq> 0" using ud by (auto simp: unitDir_def prod_eq_iff)
    show "nat (j - 1) < nat (n - 1)" using j by simp
    have "(fst s + fst d + int (nat (j - 1)) * fst d, snd s + snd d + int (nat (j - 1)) * snd d)
            = rayStep s d j"
      using j by (simp add: rayStep_def algebra_simps)
    then show "isAnyPieceAt ps
        (fst s + fst d + int (nat (j - 1)) * fst d, snd s + snd d + int (nat (j - 1)) * snd d)"
      using occ by simp
  qed
  then show ?thesis
    unfolding isPathBlocked_def Let_def dx dz .
qed

lemma validateMove_slider_blocked:
  assumes slider: "ptype p \<in> {Rook, Bishop, Queen}"
    and dir: "d \<in> set (rayDirections (ptype p))"
    and j: "1 \<le> j" "j < n"
    and occ: "isAnyPieceAt ps (rayStep (position p) d j)"
  shows "validateMove ps p (Some (rayStep (position p) d n)) = Some False"
proof -
  have ud: "unitDir d" using dir by (rule rayDirections_unit)
  have n: "1 \<le> n" using j by simp
  have blocked: "isPathBlocked ps (position p) (rayStep (position p) d n) = Some True"
    using ud n j occ by (rule isPathBlocked_blocked)
  show ?thesis
    using slider blocked
    by (auto simp: validateMove_def Let_def)
qed


text \<open>
  Who stands on the destination square itself is never asked, except for a pawn's
  diagonal step: for every other piece the verdict is the same for any two
  registries that differ only in what stands on the destination.
\<close>

lemma isPathBlocked_loop_cong:
  assumes "fst end0 = cx + int n * dx" "snd end0 = cz + int n * dz" "n = 0 \<or> dx \<noteq> 0 \<or> dz \<noteq> 0"
    "\<forall>q. q \<noteq> end0 \<longrightarrow> isAnyPieceAt ps q = isAnyPieceAt ps' q"
  shows "isPathBlocked_loop ps dx dz end0 cx cz = isPathBlocked_loop ps' dx dz end0 cx cz"
  using assms
proof (induction n arbitrary: cx cz)
  case 0
  then have "cx = fst end0" "cz = snd end0" by simp_all
  then show ?case
    by (simp add: isPathBlocked_loop.simps[of ps] isPathBlocked_loop.simps[of ps'])
next
  case (Suc n)
  have ne: "(cx, cz) \<noteq> end0" using Suc.prems by (auto simp: prod_eq_iff)
  then have same: "isAnyPieceAt ps (cx, cz) = isAnyPieceAt ps' (cx, cz)"
    using Suc.prems(4) by blast
  have "isPathBlocked_loop ps dx dz end0 (cx + dx) (cz + dz)
          = isPathBlocked_loop ps' dx dz end0 (cx + dx) (cz + dz)"
  proof (rule Suc.IH)
    show "fst end0 = cx + dx + int n * dx" using Suc.prems(1) by (simp add: algebra_simps)
    show "snd end0 = cz + dz + int n * dz" using Suc.prems(2) by (simp add: algebra_simps)
    show "n = 0 \<or> dx \<noteq> 0 \<or> dz \<noteq> 0" using Suc.prems(3) by simp
    show "\<forall>q. q \<noteq> end0 \<longrightarrow> isAnyPieceAt ps q = isAnyPieceAt ps' q" by (rule Suc.prems(4))
  qed
  then show ?case
    using same
    by (subst isPathBlocked_loop.simps[of ps], subst isPathBlocked_loop.simps[of ps']) simp
qed

lemma isPathBlocked_cong:
  assumes shape: "fst e = fst s \<or> snd e = snd s \<or> \<bar>fst e - fst s\<bar> = \<bar>snd e - snd s\<bar>"
    and same: "\<forall>q. q \<noteq> e \<longrightarrow> isAnyPieceAt ps q = isAnyPieceAt ps' q"
  shows "isPathBlocked ps s e = isPathBlocked ps' s e"
proof -
  from line_walk[OF shape] obtain n where
    "fst e = (fst s + (if fst e > fst s then 1 else if fst e < fst s then - 1 else 0)) +
       int n * (if fst e > fst s then 1 else if fst e < fst s then - 1 else 0)"
    "snd e = (snd s + (if snd e > snd s then 1 else if snd e < snd s then - 1 else 0)) +
       int n * (if snd e > snd s then 1 else if snd e < snd s then - 1 else 0)"
    "n = 0 \<or> (if fst e > fst s then 1 else if fst e < fst s then - 1 else 0 :: int) \<noteq> 0
       \<or> (if snd e > snd s then 1 else if snd e < snd s then - 1 else 0 :: int) \<noteq> 0"
    by blast
  then show ?thesis
    unfolding isPathBlocked_def Let_def
    using same by (rule isPathBlocked_loop_cong)
qed

lemma validateMove_ignores_destination_occupant:
  assumes "ptype p \<noteq> Pawn"
    and same: "\<forall>q. q \<noteq> d \<longrightarrow> isAnyPieceAt ps q = isAnyPieceAt ps' q"
  shows "validateMove ps p (Some d) = validateMove ps' p (Some d)"
proof -
  let ?dx = "\<bar>fst d - fst (position p)\<bar>" and ?dz = "\<bar>snd d - snd (position p)\<bar>"
  have a: "?dx = 0 \<Longrightarrow> isPathBlocked ps (position p) d = isPathBlocked ps' (position p) d"
    using same by (intro isPathBlocked_cong) simp_all
  have b: "?dz = 0 \<Longrightarrow> isPathBlocked ps (position p) d = isPathBlocked ps' (position p) d"
    using same by (intro isPathBlocked_cong) simp_all
  have c: "?dx = ?dz \<Longrightarrow> isPathBlocked ps (position p) d = isPathBlocked ps' (position p) d"
    using same by (intro isPathBlocked_cong) simp_all
  show ?thesis
  proof (cases "ptype p")
    case Pawn
    then show ?thesis using assms(1) by simp
  next
    case Rook
    then show ?thesis using a b by (simp add: validateMove_def Let_def)
  next
    case Knight
    then show ?thesis by (simp add: validateMove_def Let_def)
  next
    case Bishop
    then show ?thesis using c by (simp add: validateMove_def Let_def)
  next
    case Queen
    then show ?thesis using a b c by (simp add: validateMove_def Let_def)
  next
    case King
    then show ?thesis by (simp add: validateMove_def Let_def)
  qed
qed

text \<open>
  Nor are a pawn's forward squares examined: the verdict on a pawn's move along
  its own file does not depend on the registry at all.
\<close>

lemma validateMove_pawn_straight_ignores_pieces:
  "ptype p = Pawn \<Longrightarrow> fst d = fst (position p) \<Longrightarrow>
     validateMove ps p (Some d) = validateMove [] p (Some d)"
  by (simp add: validateMove_def Let_def)

lemma players_confirmPieceAssignment:
  "players (confirmPieceAssignment now d st) =
     AList.update (cd_id d)
       \<lparr>pid = cd_id d, ptype = cd_type d, team = cd_team d, position = cd_position d,
        hp = orDefault (cd_hp d) (getBaseHp (cd_type d)), effects = [], lastMoveTime = now,
        respawning = False, playerRespawnTime = None, isSpectator = False\<rparr>
       (players st)"
  by (simp add: confirmPieceAssignment_def Let_def)

lemma knightArena_players:
  "players knightArena =
     [(''n'', newPlayer ''n'' Knight White (1, 7) 7),
      (''k'', newPlayer ''k'' King Black (4, 0) 15),
      (''p'', newPlayer ''p'' Pawn White (2, 5) 5)]"
  by (simp add: knightArena_def players_confirmPieceAssignment initialServer_def newPlayer_def
        orDefault_def)

text \<open>
  C1. A move is to be judged illegal whenever its destination is off the board or
  holds a piece of the mover's own team. The move generator never yields such a
  square (\<open>getValidMoves_on_board_not_own\<close>) and \<open>validateMove\<close> rejects every
  off-board square (\<open>validateMove_off_board\<close>), but \<open>validateMove\<close> accepts a
  destination on which a piece of the mover's own team stands: with a white
  knight on \<open>(1, 7)\<close> and a white pawn on \<open>(2, 5)\<close> registered, the knight's move to
  \<open>(2, 5)\<close> is judged valid.
\<close>

theorem validateMove_accepts_own_team_square:
  "map_of (players knightArena) ''n'' = Some (newPlayer ''n'' Knight White (1, 7) 7)
   \<and> map_of (players knightArena) ''p'' = Some (newPlayer ''p'' Pawn White (2, 5) 5)
   \<and> validateMove (players knightArena) (newPlayer ''n'' Knight White (1, 7) 7) (Some (2, 5))
       = Some True"
  by (simp add: knightArena_players validateMove_def newPlayer_def)

lemma rookArena_players:
  "players rookArena =
     [(''r'', newPlayer ''r'' Rook White (0, 0) 7),
      (''k'', newPlayer ''k'' King Black (4, 7) 15),
      (''p'', newPlayer ''p'' Pawn White (0, 3) 5)]"
  by (simp add: rookArena_def players_confirmPieceAssignment initialServer_def newPlayer_def
        orDefault_def)

lemma rookArena_path_clear: "isPathBlocked (players rookArena) (0, 0) (0, 3) = Some False"
  by (simp add: rookArena_players isPathBlocked_def isPathBlocked_loop.simps isAnyPieceAt_def
        newPlayer_def)

text \<open>
  C2. A ray is to stop at the first occupied square, which is a legal destination
  if and only if its occupant is an opponent. The move generator does so
  (\<open>ray_stops_at_first_occupied\<close>), and \<open>validateMove\<close> rejects every square beyond
  an occupied one (\<open>validateMove_slider_blocked\<close>), but \<open>validateMove\<close> accepts the
  first occupied square whoever stands on it: with a white rook on \<open>(0, 0)\<close> and a
  white pawn on \<open>(0, 3)\<close> registered and the squares between them empty, the
  rook's move to \<open>(0, 3)\<close> is judged valid.
\<close>

theorem validateMove_rook_lands_on_own_pawn:
  "map_of (players rookArena) ''r'' = Some (newPlayer ''r'' Rook White (0, 0) 7)
   \<and> map_of (players rookArena) ''p'' = Some (newPlayer ''p'' Pawn White (0, 3) 5)
   \<and> validateMove (players rookArena) (newPlayer ''r'' Rook White (0, 0) 7) (Some (0, 3))
       = Some True"
proof -
  have "validateMove (players rookArena) (newPlayer ''r'' Rook White (0, 0) 7) (Some (0, 3))
          = Some True"
    by (simp add: validateMove_def rookArena_path_clear newPlayer_def)
  then show ?thesis
    by (simp add: rookArena_players)
qed

lemma pawnArena_players:
  "players pawnArena =
     [(''w'', newPlayer ''w'' Pawn White (4, 6) 5),
      (''b'', newPlayer ''b'' Pawn Black (4, 5) 5)]"
  by (simp add: pawnArena_def players_confirmPieceAssignment initialServer_def newPlayer_def
        orDefault_def)

text \<open>
  C3. A pawn's step forward is to be legal only onto an empty square, and its
  double step only over an empty square onto an empty square. The move generator
  gives exactly these destinations (\<open>pawn_moves_exact\<close>), but \<open>validateMove\<close> judges
  a pawn's move along its file by direction and distance alone
  (\<open>validateMove_pawn_straight_ignores_pieces\<close>): with a white pawn on its home
  square \<open>(4, 6)\<close> and a black pawn right in front of it on \<open>(4, 5)\<close>, both the step
  onto the black pawn's square and the double step over it to \<open>(4, 4)\<close> are judged
  valid.
\<close>

theorem validateMove_pawn_steps_onto_and_over_piece:
  "map_of (players pawnArena) ''w'' = Some (newPlayer ''w'' Pawn White (4, 6) 5)
   \<and> map_of (players pawnArena) ''b'' = Some (newPlayer ''b'' Pawn Black (4, 5) 5)
   \<and> validateMove (players pawnArena) (newPlayer ''w'' Pawn White (4, 6) 5) (Some (4, 5))
       = Some True
   \<and> validateMove (players pawnArena) (newPlayer ''w'' Pawn White (4, 6) 5) (Some (4, 4))
       = Some True"
  by (simp add: pawnArena_players validateMove_def newPlayer_def)

section \<open>Subtraction on JavaScript numbers\<close>

text \<open>
  Where the exact difference has magnitude at most \<open>2 ^ 53\<close> the subtraction is
  exact, and whether the result is at or below 0 never depends on the rounding.
\<close>

lemma spacing_small: "a < 2 ^ 53 \<Longrightarrow> spacing a = 1"
  by (subst spacing.simps) simp

lemma spacing_pos: "0 < spacing a"
  by (induction a rule: spacing.induct) (subst spacing.simps, simp)

lemma spacing_le: "0 < a \<Longrightarrow> spacing a \<le> a"
proof (induction a rule: spacing.induct)
  case (1 a)
  show ?case
  proof (cases "a < 2 ^ 53")
    case True
    then show ?thesis using "1.prems" by (simp add: spacing_small)
  next
    case False
    then have "0 < a div 2" by simp
    with "1.IH" False have "spacing (a div 2) \<le> a div 2" by simp
    then have "2 * spacing (a div 2) \<le> a" by simp
    then show ?thesis using False by (subst spacing.simps) simp
  qed
qed

lemma toDouble_exact: "\<bar>n\<bar> \<le> 2 ^ 53 \<Longrightarrow> toDouble n = n"
proof (cases "\<bar>n\<bar> < 2 ^ 53")
  case True
  then have "nat \<bar>n\<bar> < 2 ^ 53" by simp
  then have "spacing (nat \<bar>n\<bar>) = 1" by (rule spacing_small)
  then show ?thesis by (simp add: toDouble_def Let_def sgn_if)
next
  case False
  assume "\<bar>n\<bar> \<le> 2 ^ 53"
  with False have a: "nat \<bar>n\<bar> = 2 ^ 53" by simp
  have "spacing (2 ^ 53) = 2"
    by (subst spacing.simps) (simp add: spacing_small)
  then show ?thesis using a False by (auto simp: toDouble_def Let_def sgn_if)
qed

lemma toDouble_sign: "toDouble n \<le> 0 \<longleftrightarrow> n \<le> 0"
proof (cases "n = 0")
  case True
  then show ?thesis by (simp add: toDouble_def Let_def)
next
  case False
  define a where "a = nat \<bar>n\<bar>"
  define s where "s = spacing a"
  have apos: "0 < a" using False by (simp add: a_def)
  have spos: "0 < s" unfolding s_def by (rule spacing_pos)
  have "s \<le> a" unfolding s_def using apos by (rule spacing_le)
  then have q: "0 < a div s" using spos by (simp add: div_greater_zero_iff)
  then have q1: "0 < (a div s) * s" and q2: "0 < (a div s + 1) * s" using spos by simp_all
  have "0 < (if 2 * (a mod s) > s \<or> (2 * (a mod s) = s \<and> odd (a div s))
              then (a div s + 1) * s else (a div s) * s)"
    using q1 q2 by simp
  then show ?thesis
    using False unfolding toDouble_def Let_def a_def[symmetric] s_def[symmetric]
    by (auto simp: sgn_if zero_less_mult_iff mult_le_0_iff)
qed

lemma jsMinus_exact: "\<bar>a - b\<bar> \<le> 2 ^ 53 \<Longrightarrow> jsMinus a b = a - b"
  by (simp add: jsMinus_def toDouble_exact)

lemma jsMinus_sign: "jsMinus a b \<le> 0 \<longleftrightarrow> a - b \<le> 0"
  by (simp add: jsMinus_def toDouble_sign)


section \<open>The server's ability handler\<close>

text \<open>
  One pass of the \<open>forEach\<close> body touches only the entry of its own target, keeps
  the set of ids, and appends a respawn timer exactly when the target's health is
  at or below 0 after the hit.
\<close>

lemma kingArena_players:
  "players kingArena =
     [(''a'', newPlayer ''a'' Pawn White (4, 6) 5),
      (''k'', newPlayer ''k'' King Black (4, 5) 15)]"
  by (simp add: kingArena_def players_confirmPieceAssignment initialServer_def newPlayer_def
        orDefault_def)

lemma hitTarget_players_other:
  "k \<noteq> target \<Longrightarrow>
     map_of (players (hitTarget gs now att data st target)) k = map_of (players st) k"
  by (simp add: hitTarget_def handlePlayerDefeat_def Let_def update_conv
        split: option.splits)


lemma update_present_keys:
  "map_of al k = Some v \<Longrightarrow> map fst (AList.update k v' al) = map fst al"
  by (induction al) (auto split: if_splits)

lemma hitTarget_keys:
  "map fst (players (hitTarget gs now att data st target)) = map fst (players st)"
  by (simp add: hitTarget_def handlePlayerDefeat_def Let_def update_present_keys update_conv
        split: option.splits)


lemma hitTarget_timers:
  "timers (hitTarget gs now att data st target) =
     timers st @
       (case map_of (players st) target of
          None \<Rightarrow> []
        | Some tp \<Rightarrow>
            if \<not> friendlyFire gs \<and> team tp = team att then []
            else if hp tp - orDefault (ad_damage data) 1 \<le> 0 \<and> respawnEnabled gs
              then [(now + respawnTime gs * 1000, pid tp)]
            else [])"
  by (simp add: hitTarget_def handlePlayerDefeat_def Let_def jsMinus_sign split: option.splits)






lemma players_abilityHandler:
  "map_of (players st) (ad_id data) = Some attacker \<Longrightarrow>
     players (abilityHandler gs now data st) =
       players (foldl (hitTarget gs now attacker data) st
                  (findTargetsAtPosition gs (players st) (ad_target data) (team attacker)))"
  by (simp add: abilityHandler_def Let_def)

lemma timers_abilityHandler:
  "map_of (players st) (ad_id data) = Some attacker \<Longrightarrow>
     timers (abilityHandler gs now data st) =
       timers (foldl (hitTarget gs now attacker data) st
                  (findTargetsAtPosition gs (players st) (ad_target data) (team attacker)))"
  by (simp add: abilityHandler_def Let_def)




lemma foldl_hitTarget_timers:
  assumes "distinct ts"
  shows "timers (foldl (hitTarget gs now att data) st ts) =
     timers st @
       concat (map (\<lambda>t. case map_of (players st) t of
          None \<Rightarrow> []
        | Some tp \<Rightarrow>
            if \<not> friendlyFire gs \<and> team tp = team att then []
            else if hp tp - orDefault (ad_damage data) 1 \<le> 0 \<and> respawnEnabled gs
              then [(now + respawnTime gs * 1000, pid tp)]
            else []) ts)"
  using assms
proof (induction ts arbitrary: st)
  case Nil
  then show ?case by simp
next
  case (Cons u ts)
  have same: "\<forall>t \<in> set ts. map_of (players (hitTarget gs now att data st u)) t
                = map_of (players st) t"
  proof
    fix t assume "t \<in> set ts"
    then have "t \<noteq> u" using Cons.prems by auto
    then show "map_of (players (hitTarget gs now att data st u)) t = map_of (players st) t"
      by (rule hitTarget_players_other)
  qed
  have "distinct ts" using Cons.prems by simp
  from Cons.IH[OF this, of "hitTarget gs now att data st u"] same
  show ?case
    by (simp add: hitTarget_timers cong: map_cong)
qed

lemma concat_map_if:
  "concat (map (\<lambda>x. if C x then [h x] else []) xs) = map h (filter C xs)"
  by (induction xs) simp_all

lemma concat_map_cong:
  "\<forall>x \<in> set xs. f x = g x \<Longrightarrow> concat (map f xs) = concat (map g xs)"
  by (induction xs) simp_all

text \<open>
  C5, as the code has it. With respawn enabled, handling an \<open>ability\<close> message
  schedules exactly one new respawn timer for every opposing piece on the target
  square whose health is at or below 0 after the hit. Whether that piece is already
  defeated and has a timer outstanding plays no part, so timers accumulate.
\<close>

theorem every_lethal_hit_schedules_a_respawn:
  assumes keys: "distinct (map fst (players st))"
    and att: "map_of (players st) (ad_id data) = Some attacker"
  shows "timers (abilityHandler gameSettings now data st) =
           timers st @
             map (\<lambda>(k, p). (now + 5000, pid p))
               (filter (\<lambda>(k, p). position p = ad_target data \<and> team p \<noteq> team attacker
                          \<and> hp p - orDefault (ad_damage data) 1 \<le> 0)
                  (players st))"
proof -
  define P where "P = (\<lambda>x :: string \<times> player.
     fst (position (snd x)) = fst (ad_target data) \<and> snd (position (snd x)) = snd (ad_target data)
       \<and> \<not> (\<not> friendlyFire gameSettings \<and> team (snd x) = team attacker))"
  define lethal where "lethal = (\<lambda>x :: string \<times> player.
     hp (snd x) - orDefault (ad_damage data) 1 \<le> 0)"
  define g where "g = (\<lambda>t. case map_of (players st) t of
          None \<Rightarrow> []
        | Some tp \<Rightarrow>
            if \<not> friendlyFire gameSettings \<and> team tp = team attacker then []
            else if hp tp - orDefault (ad_damage data) 1 \<le> 0 \<and> respawnEnabled gameSettings
              then [(now + respawnTime gameSettings * 1000, pid tp)]
            else [])"
  define h where "h = (\<lambda>x :: string \<times> player. (now + 5000, pid (snd x)))"
  have ts: "findTargetsAtPosition gameSettings (players st) (ad_target data) (team attacker)
              = map fst (filter P (players st))"
    by (simp add: findTargetsAtPosition_def P_def case_prod_unfold)
  have d: "distinct (map fst (filter P (players st)))"
    using keys by (simp add: distinct_map_filter)
  have each: "\<forall>x \<in> set (filter P (players st)). (g \<circ> fst) x = (if lethal x then [h x] else [])"
  proof
    fix x assume x: "x \<in> set (filter P (players st))"
    then have "(fst x, snd x) \<in> set (players st)" by simp
    then have "map_of (players st) (fst x) = Some (snd x)" using keys by simp
    moreover have "team (snd x) \<noteq> team attacker"
      using x by (simp add: P_def gameSettings_def)
    ultimately show "(g \<circ> fst) x = (if lethal x then [h x] else [])"
      by (simp add: g_def h_def lethal_def gameSettings_def)
  qed
  have "timers (abilityHandler gameSettings now data st)
          = timers st @ concat (map g (map fst (filter P (players st))))"
    unfolding timers_abilityHandler[OF att] ts g_def by (rule foldl_hitTarget_timers[OF d])
  also have "concat (map g (map fst (filter P (players st))))
      = concat (map (g \<circ> fst) (filter P (players st)))"
    by simp
  also have "\<dots> = concat (map (\<lambda>x. if lethal x then [h x] else []) (filter P (players st)))"
    using each by (rule concat_map_cong)
  also have "\<dots> = map h (filter lethal (filter P (players st)))"
    by (rule concat_map_if)
  also have "\<dots> = map h (filter (\<lambda>x. P x \<and> lethal x) (players st))"
    by (simp add: conj_commute)
  also have "(\<lambda>x. P x \<and> lethal x) =
      (\<lambda>(k, p). position p = ad_target data \<and> team p \<noteq> team attacker
                          \<and> hp p - orDefault (ad_damage data) 1 \<le> 0)"
    by (auto simp: P_def lethal_def gameSettings_def prod_eq_iff fun_eq_iff)
  also have "h = (\<lambda>(k, p). (now + 5000, pid p))"
    by (simp add: h_def fun_eq_iff)
  finally show ?thesis .
qed

section \<open>The example arena: a defeated king\<close>

lemma kingArena_timers: "timers kingArena = []"
  by (simp add: kingArena_def confirmPieceAssignment_def initialServer_def Let_def)

lemma kingDefeated_players:
  "players kingDefeated =
     [(''a'', newPlayer ''a'' Pawn White (4, 6) 5),
      (''k'', (newPlayer ''k'' King Black (4, 5) (- 5))
                \<lparr>respawning := True, playerRespawnTime := Some 6000\<rparr>)]"
  unfolding kingDefeated_def
  by (simp add: players_abilityHandler[where attacker = "newPlayer ''a'' Pawn White (4, 6) 5"]
        kingArena_players strike_def findTargetsAtPosition_def gameSettings_def hitTarget_def jsMinus_exact
        handlePlayerDefeat_def orDefault_def newPlayer_def Let_def)

lemma kingDefeated_timers: "timers kingDefeated = [(6000, ''k'')]"
  unfolding kingDefeated_def
  by (simp add: timers_abilityHandler[where attacker = "newPlayer ''a'' Pawn White (4, 6) 5"]
        kingArena_players kingArena_timers strike_def findTargetsAtPosition_def
        gameSettings_def hitTarget_def jsMinus_exact
        handlePlayerDefeat_def orDefault_def newPlayer_def Let_def)




section \<open>Instances on the example arena\<close>


text \<open>
  C5, as stated, fails: two lethal hits on the same king, one second apart, each
  run defeat handling, and two respawn timers are outstanding for the one king.
\<close>

theorem second_hit_schedules_second_timer:
  "timers (abilityHandler gameSettings 2000 strike (abilityHandler gameSettings 1000 strike kingArena))
     = [(6000, ''k''), (7000, ''k'')]"
  unfolding kingDefeated_def[symmetric]
  by (simp add: timers_abilityHandler[where attacker = "newPlayer ''a'' Pawn White (4, 6) 5"]
        kingDefeated_players kingDefeated_timers strike_def findTargetsAtPosition_def
        gameSettings_def hitTarget_def jsMinus_exact
        handlePlayerDefeat_def orDefault_def newPlayer_def Let_def)

theorem every_lethal_hit_schedules_a_respawn_witness:
  "timers (abilityHandler gameSettings 3000 strike kingDefeated) = [(6000, ''k''), (8000, ''k'')]"
proof -
  have keys: "distinct (map fst (players kingDefeated))"
    by (simp add: kingDefeated_players)
  have att: "map_of (players kingDefeated) (ad_id strike) = Some (newPlayer ''a'' Pawn White (4, 6) 5)"
    by (simp add: kingDefeated_players strike_def)
  from every_lethal_hit_schedules_a_respawn[OF keys att, of 3000]
  show ?thesis
    by (simp add: kingDefeated_players kingDefeated_timers strike_def newPlayer_def orDefault_def)
qed

section \<open>Respawn after a disconnect\<close>











text \<open>
  At the level of the timer queue: when the oldest timer belongs to an absent id,
  firing it only removes it from the queue. Had the king of the example not
  disconnected, the same callback would respawn it.
\<close>

lemma fireRespawnTimer_absent:
  "timers st = (due, sid) # rest \<Longrightarrow> map_of (players st) sid = None \<Longrightarrow>
     fireRespawnTimer randomPosition st = st\<lparr>timers := rest\<rparr>"
  by (simp add: fireRespawnTimer_def respawnCallback_def)


lemma respawnCallback_present_respawns:
  "map_option hp (map_of (players (respawnCallback (3, 3) ''k'' kingDefeated)) ''k'') = Some 15
   \<and> map_option position (map_of (players (respawnCallback (3, 3) ''k'' kingDefeated)) ''k'')
       = Some (3, 3)"
  by (simp add: respawnCallback_def kingDefeated_players Let_def update_conv newPlayer_def
        getBaseHp_def)





section \<open>Registering an id twice\<close>

text \<open>
  C8, as the code has it. A registration under an id that is already present is
  accepted: the entry stored under that id is replaced by one built from the new
  message (type, team, position and health, with the base health of the new type
  when the message carries none), and the id keeps its place in the registry.
\<close>

theorem second_registration_replaces_entry:
  assumes "map_of (players st) (cd_id data) = Some old"
  shows "map_of (players (confirmPieceAssignment now data st)) (cd_id data) =
           Some \<lparr>pid = cd_id data, ptype = cd_type data, team = cd_team data,
                 position = cd_position data,
                 hp = (case cd_hp data of
                         None \<Rightarrow> getBaseHp (cd_type data)
                       | Some h \<Rightarrow> if h = 0 then getBaseHp (cd_type data) else h),
                 effects = [], lastMoveTime = now, respawning = False,
                 playerRespawnTime = None, isSpectator = False\<rparr>
         \<and> map fst (players (confirmPieceAssignment now data st)) = map fst (players st)"
  using assms
  by (simp add: players_confirmPieceAssignment update_conv update_present_keys orDefault_def)

theorem second_registration_replaces_entry_witness:
  "map_of (players (confirmPieceAssignment 7
      \<lparr>cd_id = ''k'', cd_type = Queen, cd_team = White, cd_position = (0, 0), cd_hp = None\<rparr>
      kingArena)) ''k''
     = Some ((newPlayer ''k'' Queen White (0, 0) 10)\<lparr>lastMoveTime := 7\<rparr>)"
proof -
  let ?d = "\<lparr>cd_id = ''k'', cd_type = Queen, cd_team = White, cd_position = (0, 0), cd_hp = None\<rparr>"
  have old: "map_of (players kingArena) (cd_id ?d) = Some (newPlayer ''k'' King Black (4, 5) 15)"
    by (simp add: kingArena_players)
  from second_registration_replaces_entry[OF old, of 7]
  show ?thesis by (simp add: newPlayer_def getBaseHp_def)
qed

text \<open>
  C8, as stated, fails: the white pawn \<open>a\<close> of the arena, registered again as a
  black rook, is stored as the black rook.
\<close>

theorem second_registration_overwrites:
  "map_of (players kingArena) ''a'' = Some (newPlayer ''a'' Pawn White (4, 6) 5)
   \<and> map_of (players (confirmPieceAssignment 0
        \<lparr>cd_id = ''a'', cd_type = Rook, cd_team = Black, cd_position = (0, 0), cd_hp = Some 7\<rparr>
        kingArena)) ''a''
       = Some (newPlayer ''a'' Rook Black (0, 0) 7)"
  by (simp add: kingArena_players players_confirmPieceAssignment newPlayer_def orDefault_def)

section \<open>Ability cooldown\<close>

text \<open>
  \<open>useAbility\<close> does nothing while the piece's cooldown is positive, and otherwise
  sets the cooldown to the value of the piece's type. The earlier copy of
  \<open>useAbility\<close> also sends nothing while the cooldown is positive. The \<open>keydown\<close>
  handler, however, sends its \<open>ability\<close> message whatever \<open>useAbility\<close> did.
\<close>

lemma useAbility_on_cooldown:
  "cooldown piece > 0 \<Longrightarrow> useAbility piece targetPos = (piece, None)"
  by (simp add: useAbility_def)

lemma useAbility_sets_cooldown:
  "\<not> cooldown piece > 0 \<Longrightarrow>
     cooldown (fst (useAbility piece targetPos)) =
       (case cp_type piece of
          Pawn \<Rightarrow> 5 | Rook \<Rightarrow> 10 | Knight \<Rightarrow> 8 | Bishop \<Rightarrow> 7 | Queen \<Rightarrow> 12 | King \<Rightarrow> 15)"
  by (cases "cp_type piece") (simp_all add: useAbility_def getAbilityDetails_def Let_def)

lemma useAbility_emitting_on_cooldown:
  "cooldown piece > 0 \<Longrightarrow> useAbility_emitting piece targetPos = (piece, [], None)"
  by (simp add: useAbility_emitting_def)

lemma keydownSpace_always_sends:
  "snd (keydownSpace piece target) =
     \<lparr>ad_id = cp_id piece, ad_target = target, ad_damage = Some (getAbilityDamage piece)\<rparr>"
  by (simp add: keydownSpace_def useAbility_def getAbilityDamage_def getAbilityDetails_def Let_def)

text \<open>
  C7. An ability used while the attacker's cooldown is positive is to be a no-op
  that deals no damage. The piece \<open>a\<close> has 3 seconds of cooldown left; on the space
  bar its own state stays as it is, yet the \<open>ability\<close> message is sent and the
  server, which keeps no cooldown, takes 2 HP from the king.
\<close>

theorem ability_on_cooldown_still_damages:
  "cooldown coolingPawn > 0
   \<and> fst (keydownSpace coolingPawn (4, 5)) = coolingPawn
   \<and> snd (keydownSpace coolingPawn (4, 5))
       = \<lparr>ad_id = ''a'', ad_target = (4, 5), ad_damage = Some 2\<rparr>
   \<and> map_option hp (map_of (players kingArena) ''k'') = Some 15
   \<and> map_option hp
        (map_of (players (abilityHandler gameSettings 1000
                            (snd (keydownSpace coolingPawn (4, 5))) kingArena)) ''k'')
       = Some 13"
proof -
  have msg: "snd (keydownSpace coolingPawn (4, 5))
       = \<lparr>ad_id = ''a'', ad_target = (4, 5), ad_damage = Some 2\<rparr>"
    by (simp add: keydownSpace_always_sends coolingPawn_def getAbilityDamage_def
          getAbilityDetails_def)
  have same: "fst (keydownSpace coolingPawn (4, 5)) = coolingPawn"
    by (simp add: keydownSpace_def useAbility_def coolingPawn_def Let_def)
  have hit: "map_option hp
        (map_of (players (abilityHandler gameSettings 1000
                            \<lparr>ad_id = ''a'', ad_target = (4, 5), ad_damage = Some 2\<rparr> kingArena)) ''k'')
       = Some 13"
    by (simp add: players_abilityHandler[where attacker = "newPlayer ''a'' Pawn White (4, 6) 5"]
        kingArena_players findTargetsAtPosition_def gameSettings_def hitTarget_def jsMinus_exact
        orDefault_def newPlayer_def Let_def)
  show ?thesis
    unfolding msg using same hit by (simp add: coolingPawn_def kingArena_players newPlayer_def)
qed

section \<open>The petal shield\<close>

text \<open>
  Nothing adds an entry to \<open>Game.players\<close>, which the constructor leaves empty.
  While it is empty \<open>collectLoot\<close> changes nothing and the neutral entity's
  collision hits nobody, so as the program runs no piece ever carries the shield
  flag.
\<close>

lemma collectLoot_no_players: "gplayers g = [] \<Longrightarrow> collectLoot playerId lootId g = g"
  by (simp add: collectLoot_def)

lemma moveNeutralEntity_no_players:
  "gplayers g = [] \<Longrightarrow> gplayers (moveNeutralEntity entityId r g) = []"
  by (simp add: moveNeutralEntity_def Let_def split: option.splits)

lemma newGame_no_players: "gplayers newGame = []"
  by (simp add: newGame_def)

lemma moveNeutralEntity_keeps_shield:
  "map (\<lambda>(k, p). (k, hasShield p)) (gplayers (moveNeutralEntity entityId r g))
     = map (\<lambda>(k, p). (k, hasShield p)) (gplayers g)"
  by (auto simp: moveNeutralEntity_def Let_def split: option.splits)








section \<open>Every step returns, and the registry's ids stay distinct\<close>

text \<open>
  The registry is a \<open>Map\<close>, so no id occurs twice in it: the list of ids is
  distinct at the start and after every step. Every step of the server returns.
\<close>

lemma initialServer_keys_distinct: "distinct (map fst (players (initialServer start)))"
  by (simp add: initialServer_def)

lemma foldl_hitTarget_keys:
  "map fst (players (foldl (hitTarget gs now att data) st ts)) = map fst (players st)"
  by (induction ts arbitrary: st) (simp_all add: hitTarget_keys)

lemma serverStep_keys_distinct:
  assumes "distinct (map fst (players st))" "serverStep now i st = Some st'"
  shows "distinct (map fst (players st'))"
proof (cases i)
  case (ConfirmPieceAssignment data)
  then show ?thesis
    using assms by (auto simp: players_confirmPieceAssignment distinct_update)
next
  case (Move ident req)
  then show ?thesis
    using assms
    by (auto simp: moveHandler_def Let_def distinct_update split: option.splits if_splits)
next
  case (Ability data)
  then show ?thesis
    using assms
    by (cases "map_of (players st) (ad_id data)")
       (auto simp: abilityHandler_def Let_def foldl_hitTarget_keys)
next
  case (Disconnect s)
  then show ?thesis
    using assms
    by (auto simp: disconnectHandler_def releaseAssignedPosition_def Let_def distinct_delete
          split: option.splits)
next
  case (RespawnTimer r)
  then show ?thesis
    using assms
    by (auto simp: fireRespawnTimer_def respawnCallback_def Let_def distinct_update
          split: list.splits option.splits)
qed

lemma serverRun_keys_distinct:
  assumes "distinct (map fst (players st))" "serverRun steps st = Some st'"
  shows "distinct (map fst (players st'))"
  using assms
proof (induction steps arbitrary: st)
  case Nil
  then show ?case by simp
next
  case (Cons step steps)
  obtain now i where step: "step = (now, i)" by (cases step)
  from Cons.prems(2) obtain st1 where s1: "serverStep now i st = Some st1"
    and rest: "serverRun steps st1 = Some st'"
    unfolding step by (auto split: option.splits)
  have "distinct (map fst (players st1))"
    using Cons.prems(1) s1 by (rule serverStep_keys_distinct)
  then show ?case using rest by (rule Cons.IH)
qed

lemma serverStep_returns: "\<exists>st'. serverStep now i st = Some st'"
proof (cases i)
  case (Move ident req)
  show ?thesis
  proof (cases "map_of (players st) ident")
    case None
    then show ?thesis using Move by (simp add: moveHandler_def)
  next
    case (Some p)
    obtain r where "validateMove (players st) p req = Some r"
      using validateMove_returns by blast
    then show ?thesis using Move Some by (simp add: moveHandler_def Let_def)
  qed
qed simp_all

lemma serverRun_returns: "\<exists>st'. serverRun steps st = Some st'"
proof (induction steps arbitrary: st)
  case Nil
  then show ?case by simp
next
  case (Cons step steps)
  obtain now i where step: "step = (now, i)" by (cases step)
  obtain st1 where "serverStep now i st = Some st1"
    using serverStep_returns by blast
  then show ?case using Cons.IH[of st1] step by simp
qed

end
